theory Spec2Isabelle
  imports Main
begin

section \<open>Strings and bytes\<close>

text \<open>
  A Go \<^verbatim>\<open>string\<close> and a \<^verbatim>\<open>[]byte\<close> are byte sequences; both are modelled as
  \<^typ>\<open>string\<close> (a list of 8-bit characters). A Go \<^verbatim>\<open>error\<close> is modelled by the
  text its \<^verbatim>\<open>Error()\<close> method returns.
\<close>

type_synonym bytes = string
type_synonym error = string

definition HasPrefix :: "string \<Rightarrow> string \<Rightarrow> bool" where
  "HasPrefix s p = (take (length p) s = p)"

definition HasSuffix :: "string \<Rightarrow> string \<Rightarrow> bool" where
  "HasSuffix s p = (length p \<le> length s \<and> drop (length s - length p) s = p)"

definition TrimPrefix :: "string \<Rightarrow> string \<Rightarrow> string" where
  "TrimPrefix s p = (if HasPrefix s p then drop (length p) s else s)"

section \<open>The phone number pattern\<close>

text \<open>
  The pattern of \<^verbatim>\<open>phoneRegex\<close> uses literals, character classes, greedy \<^verbatim>\<open>?\<close> and
  \<^verbatim>\<open>*\<close>, counted repetition and capture groups. \<^verbatim>\<open>FindStringSubmatch\<close> returns the
  leftmost match, and among the matches at that position the one a backtracking matcher
  finds first (greedy operators try the longer alternative first). The matcher below
  lists, for a start state, every way to match in that order of preference; a state is
  the input still unread together with the groups captured so far (latest first).
\<close>

datatype regex =
    Cls "char list"
  | Opt regex
  | Star regex
  | Rep nat regex
  | Seq regex regex
  | Cap nat regex

type_synonym mstate = "string \<times> (nat \<times> string) list"

fun star_iter :: "(mstate \<Rightarrow> mstate list) \<Rightarrow> nat \<Rightarrow> mstate \<Rightarrow> mstate list" where
  "star_iter f 0 st = [st]"
| "star_iter f (Suc n) st =
     concat (map (star_iter f n) (filter (\<lambda>st'. length (fst st') < length (fst st)) (f st))) @ [st]"

primrec matchR :: "regex \<Rightarrow> mstate \<Rightarrow> mstate list" where
  "matchR (Cls cs) = (\<lambda>st. case fst st of
       [] \<Rightarrow> []
     | c # rest \<Rightarrow> if c \<in> set cs then [(rest, snd st)] else [])"
| "matchR (Opt r) = (\<lambda>st. matchR r st @ [st])"
| "matchR (Star r) = (\<lambda>st. star_iter (matchR r) (length (fst st)) st)"
| "matchR (Rep n r) = (\<lambda>st. ((\<lambda>sts. concat (map (matchR r) sts)) ^^ n) [st])"
| "matchR (Seq r1 r2) = (\<lambda>st. concat (map (matchR r2) (matchR r1 st)))"
| "matchR (Cap k r) = (\<lambda>st.
       map (\<lambda>st'. (fst st', (k, take (length (fst st) - length (fst st')) (fst st)) # snd st'))
         (matchR r st))"

primrec numSubexp :: "regex \<Rightarrow> nat" where
  "numSubexp (Cls cs) = 0"
| "numSubexp (Opt r) = numSubexp r"
| "numSubexp (Star r) = numSubexp r"
| "numSubexp (Rep n r) = numSubexp r"
| "numSubexp (Seq r1 r2) = max (numSubexp r1) (numSubexp r2)"
| "numSubexp (Cap k r) = max k (numSubexp r)"

primrec nocap :: "regex \<Rightarrow> bool" where
  "nocap (Cls cs) = True"
| "nocap (Opt r) = nocap r"
| "nocap (Star r) = nocap r"
| "nocap (Rep n r) = nocap r"
| "nocap (Seq r1 r2) = (nocap r1 \<and> nocap r2)"
| "nocap (Cap k r) = False"

text \<open>
  The result of \<^verbatim>\<open>FindStringSubmatch\<close>: the whole match followed by the text of each
  group (empty for a group that took no part), or the nil slice, here \<open>[]\<close>, when the
  pattern matches nowhere.
\<close>

definition submatches :: "regex \<Rightarrow> string \<Rightarrow> mstate \<Rightarrow> string list" where
  "submatches re s st =
     take (length s - length (fst st)) s #
     map (\<lambda>k. case map_of (snd st) k of None \<Rightarrow> [] | Some t \<Rightarrow> t) [1 ..< Suc (numSubexp re)]"

fun FindStringSubmatch :: "regex \<Rightarrow> string \<Rightarrow> string list" where
  "FindStringSubmatch re [] =
     (case matchR re ([], []) of [] \<Rightarrow> [] | st # _ \<Rightarrow> submatches re [] st)"
| "FindStringSubmatch re (c # cs) =
     (case matchR re (c # cs, []) of
        [] \<Rightarrow> FindStringSubmatch re cs
      | st # _ \<Rightarrow> submatches re (c # cs) st)"

definition digit :: "char list" where
  "digit = ''0123456789''"

definition space :: "char list" where
  \<comment> \<open>the class \<^verbatim>\<open>\s\<close>: tab, line feed, form feed, carriage return, space\<close>
  "space = [CHR 0x09, CHR 0x0A, CHR 0x0C, CHR 0x0D, CHR '' '']"

definition sep :: "char list" where
  \<comment> \<open>the class \<^verbatim>\<open>[-.\s]\<close>\<close>
  "sep = ''-.'' @ space"

definition phoneRegex :: regex where
  \<comment> \<open>\<^verbatim>\<open>\+?1?\s*\(?(\d{3})\)?[-.\s]?(\d{3})[-.\s]?(\d{4})\<close>\<close>
  "phoneRegex =
     Seq (Opt (Cls ''+''))
    (Seq (Opt (Cls ''1''))
    (Seq (Star (Cls space))
    (Seq (Opt (Cls ''(''))
    (Seq (Cap 1 (Rep 3 (Cls digit)))
    (Seq (Opt (Cls '')''))
    (Seq (Opt (Cls sep))
    (Seq (Cap 2 (Rep 3 (Cls digit)))
    (Seq (Opt (Cls sep))
         (Cap 3 (Rep 4 (Cls digit)))))))))))"

section \<open>Phone number extraction\<close>

text \<open>
  \<^verbatim>\<open>matches[3][2:]\<close> panics when the third group is shorter than two bytes; the
  panic is a result of the model. The indices 1, 2 and 3 are read under the guard
  \<^verbatim>\<open>len(matches) >= 4\<close>, where they are in range.
\<close>

datatype panic = SliceOutOfRange

definition sliceFrom :: "string \<Rightarrow> nat \<Rightarrow> panic + string" where
  "sliceFrom s i = (if i \<le> length s then Inr (drop i s) else Inl SliceOutOfRange)"

definition formatPhone :: "string list \<Rightarrow> string" where
  \<comment> \<open>\<^verbatim>\<open>fmt.Sprintf("(%s) %s-%s", matches[1], matches[2], matches[3])\<close>\<close>
  "formatPhone matches = ''('' @ matches ! 1 @ '') '' @ matches ! 2 @ ''-'' @ matches ! 3"

definition extractPhoneNumber :: "string \<Rightarrow> panic + string" where
  "extractPhoneNumber s =
     (let matches = FindStringSubmatch phoneRegex s in
      if length matches \<ge> 4 then
        (if matches ! 1 = ''704'' then
           (case sliceFrom (matches ! 3) 2 of
              Inl p \<Rightarrow> Inl p
            | Inr last2 \<Rightarrow>
                if last2 = ''90'' then Inr ''I HATE THIS MAN'' else Inr (formatPhone matches))
         else Inr (formatPhone matches))
      else Inr [])"

section \<open>Replacing the narrow no-break space\<close>

text \<open>
  \<^verbatim>\<open>ReplaceAll\<close> walks the input from the left: where the pattern matches, the
  replacement is written and the walk resumes after the match; elsewhere the byte is
  copied. (A match of no bytes writes the replacement and copies the next byte; the
  pattern used here never matches the empty string. The replacement contains no
  \<^verbatim>\<open>$\<close>, so it is written as it is.)
\<close>

fun ReplaceAll :: "regex \<Rightarrow> bytes \<Rightarrow> bytes \<Rightarrow> bytes" where
  "ReplaceAll re [] repl = (case matchR re ([], []) of [] \<Rightarrow> [] | st # _ \<Rightarrow> repl)"
| "ReplaceAll re (c # cs) repl =
     (case matchR re (c # cs, []) of
        [] \<Rightarrow> c # ReplaceAll re cs repl
      | st # _ \<Rightarrow>
          if length (fst st) < length (c # cs) then repl @ ReplaceAll re (fst st) repl
          else repl @ c # ReplaceAll re cs repl)"

definition nastyTime :: bytes where
  \<comment> \<open>the UTF-8 encoding of U+202F\<close>
  "nastyTime = [CHR 0xE2, CHR 0x80, CHR 0xAF]"

definition nastyTimeRegex :: regex where
  \<comment> \<open>\<^verbatim>\<open>regexp.MustCompile("\xe2\x80\xaf")\<close>\<close>
  "nastyTimeRegex = Seq (Cls [CHR 0xE2]) (Seq (Cls [CHR 0x80]) (Cls [CHR 0xAF]))"

text \<open>Whether a byte sequence occurs somewhere in another.\<close>

fun Contains :: "bytes \<Rightarrow> bytes \<Rightarrow> bool" where
  "Contains [] sub = (sub = [])"
| "Contains (c # cs) sub = (HasPrefix (c # cs) sub \<or> Contains cs sub)"

section \<open>Functions of the packages strings, strconv and filepath\<close>

definition TrimSuffix :: "string \<Rightarrow> string \<Rightarrow> string" where
  "TrimSuffix s suf = (if HasSuffix s suf then take (length s - length suf) s else s)"

definition Ext :: "string \<Rightarrow> string" where
  \<comment> \<open>from the last dot of the last path element on; empty when that element has no dot\<close>
  "Ext path =
     (let base = rev (takeWhile (\<lambda>c. c \<noteq> CHR ''/'') (rev path)) in
      if CHR ''.'' \<in> set base then CHR ''.'' # rev (takeWhile (\<lambda>c. c \<noteq> CHR ''.'') (rev base))
      else [])"

definition lowerByte :: "char \<Rightarrow> char" where
  "lowerByte c =
     (if of_char (CHR ''A'') \<le> (of_char c :: nat) \<and> (of_char c :: nat) \<le> of_char (CHR ''Z'')
      then char_of ((of_char c :: nat) + 32) else c)"

definition ToLower :: "string \<Rightarrow> string" where
  \<comment> \<open>The bytes \<^verbatim>\<open>A\<close> to \<^verbatim>\<open>Z\<close> are lowered. On bytes from 0x80 on, the library also
      lowers the letters of other alphabets, and no letter outside ASCII is lowered to
      an ASCII \<^verbatim>\<open>m\<close> or \<^verbatim>\<open>p\<close>: the model leaves those bytes as they are, which
      does not change whether the result ends in \<^verbatim>\<open>.mp3\<close>.\<close>
  "ToLower s = map lowerByte s"

definition Trim :: "string \<Rightarrow> string \<Rightarrow> string" where
  \<comment> \<open>for a cutset of ASCII bytes\<close>
  "Trim s cutset =
     rev (dropWhile (\<lambda>c. c \<in> set cutset) (rev (dropWhile (\<lambda>c. c \<in> set cutset) s)))"

definition whiteSpace :: "string list" where
  \<comment> \<open>the UTF-8 encodings of the code points for which \<^verbatim>\<open>unicode.IsSpace\<close> holds:
      U+0009 to U+000D, U+0020, U+0085, U+00A0, U+1680, U+2000 to U+200A, U+2028, U+2029,
      U+202F, U+205F, U+3000\<close>
  "whiteSpace =
     [[CHR 0x09], [CHR 0x0A], [CHR 0x0B], [CHR 0x0C], [CHR 0x0D], [CHR 0x20],
      [CHR 0xC2, CHR 0x85], [CHR 0xC2, CHR 0xA0], [CHR 0xE1, CHR 0x9A, CHR 0x80],
      [CHR 0xE2, CHR 0x80, CHR 0x80], [CHR 0xE2, CHR 0x80, CHR 0x81],
      [CHR 0xE2, CHR 0x80, CHR 0x82], [CHR 0xE2, CHR 0x80, CHR 0x83],
      [CHR 0xE2, CHR 0x80, CHR 0x84], [CHR 0xE2, CHR 0x80, CHR 0x85],
      [CHR 0xE2, CHR 0x80, CHR 0x86], [CHR 0xE2, CHR 0x80, CHR 0x87],
      [CHR 0xE2, CHR 0x80, CHR 0x88], [CHR 0xE2, CHR 0x80, CHR 0x89],
      [CHR 0xE2, CHR 0x80, CHR 0x8A], [CHR 0xE2, CHR 0x80, CHR 0xA8],
      [CHR 0xE2, CHR 0x80, CHR 0xA9], [CHR 0xE2, CHR 0x80, CHR 0xAF],
      [CHR 0xE2, CHR 0x81, CHR 0x9F], [CHR 0xE3, CHR 0x80, CHR 0x80]]"

definition leadingSpace :: "string \<Rightarrow> nat" where
  \<comment> \<open>the width of the white space character the string starts with, or 0\<close>
  "leadingSpace s = (case find (HasPrefix s) whiteSpace of None \<Rightarrow> 0 | Some p \<Rightarrow> length p)"

definition trailingSpace :: "string \<Rightarrow> nat" where
  "trailingSpace s = (case find (HasSuffix s) whiteSpace of None \<Rightarrow> 0 | Some p \<Rightarrow> length p)"

function TrimLeftSpace :: "string \<Rightarrow> string" where
  "TrimLeftSpace s =
     (if leadingSpace s = 0 \<or> s = [] then s else TrimLeftSpace (drop (leadingSpace s) s))"
  by pat_completeness auto
termination
  by (relation "measure length") auto

function TrimRightSpace :: "string \<Rightarrow> string" where
  "TrimRightSpace s =
     (if trailingSpace s = 0 \<or> s = [] then s
      else TrimRightSpace (take (length s - trailingSpace s) s))"
  by pat_completeness auto
termination
  by (relation "measure length") auto

declare TrimLeftSpace.simps [simp del]
declare TrimRightSpace.simps [simp del]

definition TrimSpace :: "string \<Rightarrow> string" where
  "TrimSpace s = TrimRightSpace (TrimLeftSpace s)"

fun digits :: "nat \<Rightarrow> string" where
  "digits n = (if n < 10 then [digit ! n] else digits (n div 10) @ [digit ! (n mod 10)])"

declare digits.simps [simp del]

definition Itoa :: "int \<Rightarrow> string" where
  \<comment> \<open>the verb \<^verbatim>\<open>%d\<close>\<close>
  "Itoa i = (if i < 0 then CHR ''-'' # digits (nat (- i)) else digits (nat i))"


section \<open>Base64\<close>

text \<open>
  An encoding is given by its alphabet of 64 bytes; both encodings used pad with
  \<^verbatim>\<open>=\<close> and are not strict. Encoding turns three bytes into four letters and pads the
  last group. Decoding reads groups of four letters, skips line feeds and carriage
  returns, and accepts padding only at the end of the input; any other input is a
  \<^verbatim>\<open>CorruptInputError\<close> carrying the offset where decoding stopped.
\<close>

definition encodeStd :: string where
  "encodeStd = ''ABCDEFGHIJKLMNOPQRSTUVWXYZabcdefghijklmnopqrstuvwxyz0123456789+/''"

definition encodeURL :: string where
  "encodeURL = ''ABCDEFGHIJKLMNOPQRSTUVWXYZabcdefghijklmnopqrstuvwxyz0123456789-_''"

definition padChar :: char where
  "padChar = CHR ''=''"

fun EncodeToString :: "string \<Rightarrow> bytes \<Rightarrow> string" where
  "EncodeToString enc [] = []"
| "EncodeToString enc [a] =
     (let val = of_char a * 65536 in
      [enc ! (val div 262144 mod 64), enc ! (val div 4096 mod 64), padChar, padChar])"
| "EncodeToString enc [a, b] =
     (let val = of_char a * 65536 + of_char b * 256 in
      [enc ! (val div 262144 mod 64), enc ! (val div 4096 mod 64), enc ! (val div 64 mod 64),
       padChar])"
| "EncodeToString enc (a # b # c # rest) =
     (let val = of_char a * 65536 + of_char b * 256 + of_char c in
      [enc ! (val div 262144 mod 64), enc ! (val div 4096 mod 64), enc ! (val div 64 mod 64),
       enc ! (val mod 64)] @ EncodeToString enc rest)"

primrec decodeMap :: "string \<Rightarrow> char \<Rightarrow> nat option" where
  "decodeMap [] c = None"
| "decodeMap (x # xs) c = (if x = c then Some 0 else map_option Suc (decodeMap xs c))"

definition CorruptInputError :: "nat \<Rightarrow> error" where
  "CorruptInputError n = ''illegal base64 data at input byte '' @ Itoa (int n)"

definition isNewline :: "char \<Rightarrow> bool" where
  "isNewline c = (c = CHR 0x0A \<or> c = CHR 0x0D)"

definition quantumBytes :: "nat list \<Rightarrow> bytes" where
  \<comment> \<open>the bytes of a group of \<open>dlen\<close> letters (2, 3 or 4): \<open>dlen - 1\<close> of them\<close>
  "quantumBytes dbuf =
     (let d = dbuf @ replicate (4 - length dbuf) 0;
          val = d ! 0 * 262144 + d ! 1 * 4096 + d ! 2 * 64 + d ! 3
      in take (length dbuf - 1)
           [char_of (val div 65536), char_of (val div 256), char_of val])"

definition finishPadding :: "nat list \<Rightarrow> string \<Rightarrow> nat \<Rightarrow> error + bytes" where
  \<comment> \<open>after the padding: only newlines may follow\<close>
  "finishPadding dbuf src si =
     (let rest = dropWhile isNewline src; si' = si + (length src - length rest) in
      if rest \<noteq> [] then Inl (CorruptInputError si') else Inr (quantumBytes dbuf))"

definition decodePadding :: "nat list \<Rightarrow> string \<Rightarrow> nat \<Rightarrow> error + bytes" where
  \<comment> \<open>\<open>src\<close> follows a padding byte read at offset \<open>si - 1\<close>\<close>
  "decodePadding dbuf src si =
     (if length dbuf < 2 then Inl (CorruptInputError (si - 1))
      else if length dbuf = 2 then
        (let rest = dropWhile isNewline src; si' = si + (length src - length rest) in
         case rest of
           [] \<Rightarrow> Inl (CorruptInputError si')
         | c # rest' \<Rightarrow>
             if c \<noteq> padChar then Inl (CorruptInputError (si' - 1))
             else finishPadding dbuf rest' (Suc si'))
      else finishPadding dbuf src si)"

fun decodeFrom :: "string \<Rightarrow> nat list \<Rightarrow> string \<Rightarrow> nat \<Rightarrow> error + bytes" where
  "decodeFrom enc dbuf [] si =
     (if dbuf = [] then Inr [] else Inl (CorruptInputError (si - length dbuf)))"
| "decodeFrom enc dbuf (c # cs) si =
     (case decodeMap enc c of
        Some v \<Rightarrow>
          if length dbuf = 3 then
            (case decodeFrom enc [] cs (Suc si) of
               Inl e \<Rightarrow> Inl e
             | Inr out \<Rightarrow> Inr (quantumBytes (dbuf @ [v]) @ out))
          else decodeFrom enc (dbuf @ [v]) cs (Suc si)
      | None \<Rightarrow>
          if isNewline c then decodeFrom enc dbuf cs (Suc si)
          else if c \<noteq> padChar then Inl (CorruptInputError si)
          else decodePadding dbuf cs (Suc si))"

definition DecodeString :: "string \<Rightarrow> string \<Rightarrow> error + bytes" where
  "DecodeString enc s = decodeFrom enc [] s 0"


section \<open>Data model\<close>

record Recording =
  ID :: string
  PhoneNumber :: string
  ReceivedAt :: string
  MP3FileName :: string
  FilePath :: string
  FileSize :: int
  Transcription :: string
  Title :: string

record AttachmentData =
  FileName :: string
  Content :: string
  MimeType :: string

record EmailData =
  Subject :: string
  Sender :: string
  ReceivedAt :: string
  Attachments :: "AttachmentData list"

definition attachmentDir :: string where
  "attachmentDir = ''./data/mp3s''"

section \<open>The world outside the handlers\<close>

text \<open>
  The handlers read and change the file system and the \<^verbatim>\<open>recordings\<close> table, draw
  random bytes and call other programs and services. The state they change is a record
  \<open>world\<close> that every operation takes and returns: the files by path, the rows of the
  table in insertion order, the number of identifiers generated so far, and the
  transcriptions handed to the title generator so far. What the outside decides (the
  result of a library call or of another program) is a field of the record \<open>env\<close>:
  a failure of the outside is then an input, and every error branch of the source is a
  branch here. What the handlers write to the log is left out.
\<close>

record world =
  files :: "string \<rightharpoonup> bytes"
  rows :: "Recording list"
  randCalls :: nat
  titleCalls :: "string list"

datatype openError = ErrPermission | ErrOther

record env =
  jsonUnmarshalEmail :: "bytes \<Rightarrow> error + EmailData"
    \<comment> \<open>\<^verbatim>\<open>json.Unmarshal(body, &email)\<close>\<close>
  timeNowFormat :: string
    \<comment> \<open>\<^verbatim>\<open>time.Now().Format("2006-01-02 15:04:05")\<close>\<close>
  randRead :: "nat \<Rightarrow> error + bytes"
    \<comment> \<open>\<^verbatim>\<open>rand.Read(b)\<close> at the n-th call: the bytes read, or its error\<close>
  timeNowUnixNano :: "nat \<Rightarrow> int"
  osCreate :: "string \<Rightarrow> error option"
    \<comment> \<open>the error of \<^verbatim>\<open>os.Create\<close> on a path, if it fails\<close>
  fileWrite :: "string \<Rightarrow> bytes \<Rightarrow> (nat \<times> error) option"
    \<comment> \<open>the error of \<^verbatim>\<open>file.Write\<close>, if it fails, and the count of bytes written before\<close>
  osStat :: "string \<Rightarrow> error option"
    \<comment> \<open>an error of \<^verbatim>\<open>os.Stat\<close> other than the file not existing\<close>
  osReadFile :: "string \<Rightarrow> error option"
  osOpen :: "string \<Rightarrow> openError option"
    \<comment> \<open>an error of opening a file for \<^verbatim>\<open>http.ServeFile\<close> other than its not existing\<close>
  lookPath :: "string \<Rightarrow> error option"
  ffmpeg :: "bytes option \<Rightarrow> error + bytes"
    \<comment> \<open>the transcoder run on the content of the input file: its error, or the waveform\<close>
  whisper :: "bytes \<Rightarrow> (error \<times> string) + (string \<times> string option)"
    \<comment> \<open>the recognizer run on the waveform: its error and standard error output, or its
        standard output and the text file it wrote, if it wrote one\<close>
  jsonMarshalRequest :: "string \<Rightarrow> error + bytes"
  httpNewRequest :: "bytes \<Rightarrow> error option"
  clientDo :: "bytes \<Rightarrow> error + (int \<times> (error + bytes))"
    \<comment> \<open>the completion service: a transport error, or the status code and the result of
        reading the body\<close>
  jsonUnmarshalOpenAI :: "bytes \<Rightarrow> error + string list"
    \<comment> \<open>the decoded response, as the \<^verbatim>\<open>Message.Content\<close> of each of its choices\<close>
  dbExec :: "Recording \<Rightarrow> error option"
    \<comment> \<open>an error of the insert other than the primary key being taken\<close>
  dbQueryRow :: "string \<Rightarrow> error option"
    \<comment> \<open>an error of the lookup other than no row being found\<close>


section \<open>File system, identifiers and the table\<close>

definition Stat :: "env \<Rightarrow> string \<Rightarrow> world \<Rightarrow> (bool \<times> error) + int" where
  \<comment> \<open>\<^verbatim>\<open>os.Stat\<close>: the size of the file, or an error together with what
      \<^verbatim>\<open>os.IsNotExist\<close> says of it\<close>
  "Stat e path w =
     (case osStat e path of
        Some err \<Rightarrow> Inl (False, err)
      | None \<Rightarrow>
          (case files w path of
             None \<Rightarrow> Inl (True, ''stat '' @ path @ '': no such file or directory'')
           | Some content \<Rightarrow> Inr (int (length content))))"

definition Remove :: "string \<Rightarrow> world \<Rightarrow> world" where
  "Remove path w = w\<lparr>files := (files w)(path := None)\<rparr>"

definition generateID :: "env \<Rightarrow> world \<Rightarrow> string \<times> world" where
  "generateID e w =
     (let w' = w\<lparr>randCalls := Suc (randCalls w)\<rparr> in
      case randRead e (randCalls w) of
        Inl err \<Rightarrow> (Itoa (timeNowUnixNano e (randCalls w)), w')
      | Inr r \<Rightarrow> (EncodeToString encodeURL (take 16 (r @ replicate 16 (CHR 0x00))), w'))"

definition mp3Path :: "string \<Rightarrow> string" where
  \<comment> \<open>\<^verbatim>\<open>filepath.Join(attachmentDir, recordingID+".mp3")\<close>: the join cleans the
      path, which drops the leading \<^verbatim>\<open>./\<close> of the directory; an identifier has no
      slash and no dot, so nothing else changes\<close>
  "mp3Path recordingID = drop 2 attachmentDir @ ''/'' @ recordingID @ ''.mp3''"

definition saveAttachment :: "env \<Rightarrow> AttachmentData \<Rightarrow> string \<Rightarrow> world \<Rightarrow> error option \<times> world" where
  "saveAttachment e attachment filePath w =
     (case DecodeString encodeStd (Content attachment) of
        Inl err \<Rightarrow> (Some (''base64 decode error: '' @ err), w)
      | Inr content \<Rightarrow>
          (case osCreate e filePath of
             Some err \<Rightarrow> (Some (''file creation error: '' @ err), w)
           | None \<Rightarrow>
               (case fileWrite e filePath content of
                  Some (n, err) \<Rightarrow>
                    (Some (''file write error: '' @ err),
                     w\<lparr>files := (files w)(filePath \<mapsto> take n content)\<rparr>)
                | None \<Rightarrow> (None, w\<lparr>files := (files w)(filePath \<mapsto> content)\<rparr>))))"

definition insertRecording :: "env \<Rightarrow> Recording \<Rightarrow> world \<Rightarrow> error option \<times> world" where
  \<comment> \<open>the \<^verbatim>\<open>INSERT\<close>; \<^verbatim>\<open>id\<close> is the primary key of the table\<close>
  "insertRecording e recording w =
     (case dbExec e recording of
        Some err \<Rightarrow> (Some err, w)
      | None \<Rightarrow>
          if ID recording \<in> set (map ID (rows w))
          then (Some ''Constraint Error: Duplicate key'', w)
          else (None, w\<lparr>rows := rows w @ [recording]\<rparr>))"

section \<open>Transcription\<close>

definition whisperCli :: string where
  "whisperCli = ''../whisper.cpp/build/bin/whisper-cli''"

definition transcribeAudio :: "env \<Rightarrow> string \<Rightarrow> world \<Rightarrow> (error + string) \<times> world" where
  "transcribeAudio e filePath w =
     (case lookPath e whisperCli of
        Some err \<Rightarrow> (Inl (''whisper.cpp not found in PATH: '' @ err), w)
      | None \<Rightarrow>
          (let wavPath = TrimSuffix filePath (Ext filePath) @ ''.wav'' in
           case ffmpeg e (files w filePath) of
             Inl err \<Rightarrow> (Inl (''failed to convert MP3 to WAV: '' @ err), w)
           | Inr wav \<Rightarrow>
               (let w1 = w\<lparr>files := (files w)(wavPath \<mapsto> wav)\<rparr> in
                case whisper e wav of
                  Inl (err, stderr) \<Rightarrow>
                    (Inl (''whisper transcription failed: '' @ err @ [CHR 0x0A] @ ''stderr: '' @ stderr),
                     Remove wavPath w1)
                | Inr (stdout, sidecar) \<Rightarrow>
                    (let transcriptionFile = TrimSuffix wavPath (Ext wavPath) @ ''.txt'';
                         w2 = (case sidecar of
                                 None \<Rightarrow> w1
                               | Some txt \<Rightarrow> w1\<lparr>files := (files w1)(transcriptionFile \<mapsto> txt)\<rparr>)
                     in
                     case Stat e transcriptionFile w2 of
                       Inl (True, err) \<Rightarrow> (Inr (TrimSpace stdout), Remove wavPath w2)
                     | _ \<Rightarrow>
                         (case osReadFile e transcriptionFile of
                            Some err \<Rightarrow>
                              (Inl (''failed to read transcription file: '' @ err), Remove wavPath w2)
                          | None \<Rightarrow>
                              (case files w2 transcriptionFile of
                                 None \<Rightarrow>
                                   (Inl (''failed to read transcription file: open '' @
                                         transcriptionFile @ '': no such file or directory''),
                                    Remove wavPath w2)
                               | Some transcriptionBytes \<Rightarrow>
                                   (Inr (TrimSpace transcriptionBytes),
                                    Remove wavPath (Remove transcriptionFile w2))))))))"

section \<open>Title generation\<close>

definition Untitled :: string where
  "Untitled = ''Untitled Voicemail''"

definition userPrompt :: "string \<Rightarrow> string" where
  "userPrompt transcription =
     ''Please create a title for this voicemail transcription:'' @ [CHR 0x0A, CHR 0x0A] @
     transcription"

definition cleanTitle :: "string \<Rightarrow> string" where
  \<comment> \<open>the clean-up at the end of \<^verbatim>\<open>generateTitle\<close>: white space, then quotes, then a
      colon, then the default for an empty title\<close>
  "cleanTitle content =
     (let title = TrimSpace content;
          title = Trim title [CHR 0x22, CHR 0x27];
          title = TrimPrefix title '':''
      in if title = [] then Untitled else title)"

definition generateTitle :: "env \<Rightarrow> string \<Rightarrow> world \<Rightarrow> (string \<times> error option) \<times> world" where
  "generateTitle e transcription w =
     (let w' = w\<lparr>titleCalls := titleCalls w @ [transcription]\<rparr> in
      case jsonMarshalRequest e (userPrompt transcription) of
        Inl err \<Rightarrow> ((Untitled, Some (''failed to marshal JSON request: '' @ err)), w')
      | Inr requestJSON \<Rightarrow>
      (case httpNewRequest e requestJSON of
        Some err \<Rightarrow> ((Untitled, Some (''failed to create HTTP request: '' @ err)), w')
      | None \<Rightarrow>
      (case clientDo e requestJSON of
        Inl err \<Rightarrow> ((Untitled, Some (''failed to send request to Ollama: '' @ err)), w')
      | Inr (statusCode, read) \<Rightarrow>
      (case read of
        Inl err \<Rightarrow> ((Untitled, Some (''failed to read response body: '' @ err)), w')
      | Inr body \<Rightarrow>
          if statusCode \<noteq> 200 then
            ((Untitled,
              Some (''Ollama API error (status '' @ Itoa statusCode @ ''): '' @ body)), w')
          else
            (case jsonUnmarshalOpenAI e body of
               Inl err \<Rightarrow> ((Untitled, Some (''failed to parse Ollama response: '' @ err)), w')
             | Inr choices \<Rightarrow>
                 if length choices = 0
                 then ((Untitled, Some ''no content in Ollama response''), w')
                 else ((cleanTitle (choices ! 0), None), w'))))))"

section \<open>The handlers\<close>

record request =
  Method :: string
  URLPath :: string
  Body :: "error + bytes"
    \<comment> \<open>what \<^verbatim>\<open>io.ReadAll(r.Body)\<close> returns\<close>

datatype response =
    HttpError nat string
    \<comment> \<open>\<^verbatim>\<open>http.Error(w, message, code)\<close>\<close>
  | JsonResponse nat "(string \<times> string) list"
    \<comment> \<open>\<^verbatim>\<open>w.WriteHeader(code)\<close>, then the map encoded as JSON\<close>
  | Redirect nat string
    \<comment> \<open>a redirect written by \<^verbatim>\<open>http.ServeFile\<close>: the status and the location\<close>
  | ServeContent "(string \<times> string) list" string
    \<comment> \<open>the headers set by the handler, then the content of the opened file written by
        \<^verbatim>\<open>http.ServeFile\<close>, whole or in part as the request's headers ask\<close>
  | Panicked panic

definition isMP3 :: "AttachmentData \<Rightarrow> bool" where
  "isMP3 attachment = HasSuffix (ToLower (FileName attachment)) ''.mp3''"

definition enrich :: "env \<Rightarrow> Recording \<Rightarrow> world \<Rightarrow> Recording \<times> world" where
  \<comment> \<open>the transcription and the title of the record of a saved attachment\<close>
  "enrich e recording w =
     (case transcribeAudio e (FilePath recording) w of
        (Inl err, w1) \<Rightarrow>
          (recording\<lparr>Transcription := ''Transcription failed: '' @ err, Title := Untitled\<rparr>, w1)
      | (Inr transcription, w1) \<Rightarrow>
          if transcription \<noteq> [] then
            (case generateTitle e transcription w1 of
               ((title, Some err), w2) \<Rightarrow>
                 (recording\<lparr>Transcription := transcription, Title := Untitled\<rparr>, w2)
             | ((title, None), w2) \<Rightarrow>
                 (recording\<lparr>Transcription := transcription, Title := title\<rparr>, w2))
          else (recording\<lparr>Transcription := transcription, Title := Untitled\<rparr>, w1))"

text \<open>
  The loop over the attachments. \<open>recordingID\<close> is the variable declared before the
  loop; \<^verbatim>\<open>continue\<close> is the recursive call and \<^verbatim>\<open>break\<close> the return.
\<close>

fun processAttachments ::
  "env \<Rightarrow> string \<Rightarrow> string \<Rightarrow> AttachmentData list \<Rightarrow> string \<Rightarrow> world \<Rightarrow> string \<times> world" where
  "processAttachments e phoneNumber receivedAt [] recordingID w = (recordingID, w)"
| "processAttachments e phoneNumber receivedAt (attachment # rest) recordingID w =
     (if isMP3 attachment then
        (case generateID e w of (recordingID', w1) \<Rightarrow>
         let filePath = mp3Path recordingID' in
         case saveAttachment e attachment filePath w1 of
           (Some err, w2) \<Rightarrow> processAttachments e phoneNumber receivedAt rest recordingID' w2
         | (None, w2) \<Rightarrow>
             (case Stat e filePath w2 of
                Inl err \<Rightarrow> processAttachments e phoneNumber receivedAt rest recordingID' w2
              | Inr fileSize \<Rightarrow>
                  (let recording =
                         \<lparr>ID = recordingID', PhoneNumber = phoneNumber,
                          Recording.ReceivedAt = receivedAt, MP3FileName = FileName attachment,
                          FilePath = filePath, FileSize = fileSize, Transcription = [], Title = []\<rparr>
                   in
                   case enrich e recording w2 of (recording', w3) \<Rightarrow>
                     (recordingID', snd (insertRecording e recording' w3)))))
      else processAttachments e phoneNumber receivedAt rest recordingID w)"

text \<open>
  The part of the loop that ends in \<^verbatim>\<open>continue\<close>, for stating what happened before
  the attachment that is transcribed: \<open>continuedPast\<close> runs the loop over attachments
  each of which is skipped (its name does not end in \<^verbatim>\<open>.mp3\<close>) or abandoned (its
  save or its \<^verbatim>\<open>os.Stat\<close> fails), and returns the identifier and the world the loop
  goes on with; it returns \<open>None\<close> when one of them is saved and reaches the
  transcription.
\<close>

fun continuedPast ::
  "env \<Rightarrow> AttachmentData list \<Rightarrow> string \<Rightarrow> world \<Rightarrow> (string \<times> world) option" where
  "continuedPast e [] recordingID w = Some (recordingID, w)"
| "continuedPast e (attachment # rest) recordingID w =
     (if isMP3 attachment then
        (case generateID e w of (recordingID', w1) \<Rightarrow>
         case saveAttachment e attachment (mp3Path recordingID') w1 of
           (Some err, w2) \<Rightarrow> continuedPast e rest recordingID' w2
         | (None, w2) \<Rightarrow>
             (case Stat e (mp3Path recordingID') w2 of
                Inl err \<Rightarrow> continuedPast e rest recordingID' w2
              | Inr fileSize \<Rightarrow> None))
      else continuedPast e rest recordingID w)"

definition webhookHandler :: "env \<Rightarrow> request \<Rightarrow> world \<Rightarrow> response \<times> world" where
  "webhookHandler e r w =
     (if Method r \<noteq> ''POST'' then (HttpError 405 ''Method not allowed'', w)
      else
        case Body r of
          Inl err \<Rightarrow> (HttpError 500 ''Error reading request body'', w)
        | Inr body \<Rightarrow>
            (case jsonUnmarshalEmail e (ReplaceAll nastyTimeRegex body '' '') of
               Inl err \<Rightarrow> (HttpError 400 ''Error parsing JSON'', w)
             | Inr email \<Rightarrow>
                 (let receivedAt =
                        (if EmailData.ReceivedAt email = [] then timeNowFormat e
                         else EmailData.ReceivedAt email)
                  in
                  case extractPhoneNumber (Subject email) of
                    Inl p \<Rightarrow> (Panicked p, w)
                  | Inr phone \<Rightarrow>
                      (let phoneNumber = (if phone = [] then ''Unknown'' else phone) in
                       case processAttachments e phoneNumber receivedAt (Attachments email) [] w of
                         (recordingID, w') \<Rightarrow>
                           (JsonResponse 201
                              [(''status'', ''success''),
                               (''message'', ''Recording data received''),
                               (''id'', recordingID)], w')))))"






section \<open>A concrete environment\<close>

text \<open>
  An environment in which every call to the outside succeeds, used to run the
  handlers on concrete requests: the decoder of the request body returns the given
  payload, the random source returns sixteen zero bytes, the recognizer prints
  \<^verbatim>\<open>hello\<close> and the completion service answers with the given content.
\<close>

definition exampleEnv :: "EmailData \<Rightarrow> string \<Rightarrow> env" where
  "exampleEnv email content =
     \<lparr>jsonUnmarshalEmail = (\<lambda>body. Inr email),
      timeNowFormat = ''2025-03-01 12:00:00'',
      randRead = (\<lambda>n. Inr (replicate 16 (CHR 0x00))),
      timeNowUnixNano = (\<lambda>n. 1740830400000000000),
      osCreate = (\<lambda>path. None),
      fileWrite = (\<lambda>path content. None),
      osStat = (\<lambda>path. None),
      osReadFile = (\<lambda>path. None),
      osOpen = (\<lambda>path. None),
      lookPath = (\<lambda>file. None),
      ffmpeg = (\<lambda>input. Inr ''RIFF''),
      whisper = (\<lambda>wav. Inr (''hello'', None)),
      jsonMarshalRequest = (\<lambda>prompt. Inr prompt),
      httpNewRequest = (\<lambda>requestJSON. None),
      clientDo = (\<lambda>requestJSON. Inr (200, Inr ''{}'')),
      jsonUnmarshalOpenAI = (\<lambda>body. Inr [content]),
      dbExec = (\<lambda>recording. None),
      dbQueryRow = (\<lambda>recordingID. None)\<rparr>"

definition exampleWorld :: world where
  "exampleWorld = \<lparr>files = Map.empty, rows = [], randCalls = 0, titleCalls = []\<rparr>"

definition exampleRequest :: request where
  "exampleRequest = \<lparr>Method = ''POST'', URLPath = ''/api/webhook'', Body = Inr ''{}''\<rparr>"

definition exampleEmail :: "string \<Rightarrow> string \<Rightarrow> string \<Rightarrow> EmailData" where
  \<comment> \<open>an email with one attachment\<close>
  "exampleEmail subject fileName content =
     \<lparr>Subject = subject, Sender = ''voicemail@example.com'',
      EmailData.ReceivedAt = ''Saturday, March 1, 2025 at 12:00:00 PM'',
      Attachments = [\<lparr>FileName = fileName, Content = content, MimeType = ''audio/mpeg''\<rparr>]\<rparr>"

definition helloEmail :: EmailData where
  \<comment> \<open>no phone number in the subject; the attachment holds the five bytes \<^verbatim>\<open>hello\<close>\<close>
  "helloEmail = exampleEmail ''hello'' ''msg.MP3'' (EncodeToString encodeStd ''hello'')"

definition noWhisperEnv :: env where
  \<comment> \<open>the recognizer is not installed\<close>
  "noWhisperEnv =
     (exampleEnv helloEmail ''A title'')\<lparr>lookPath := (\<lambda>file. Some ''file does not exist'')\<rparr>"

definition retryEmail :: EmailData where
  \<comment> \<open>as \<open>helloEmail\<close>, after an attachment \<^verbatim>\<open>a.mp3\<close> whose content does not decode\<close>
  "retryEmail =
     helloEmail\<lparr>Attachments :=
       \<lparr>FileName = ''a.mp3'', Content = ''!!!'', MimeType = ''audio/mpeg''\<rparr> #
       Attachments helloEmail\<rparr>"

definition retryEnv :: env where
  "retryEnv = noWhisperEnv\<lparr>jsonUnmarshalEmail := (\<lambda>body. Inr retryEmail)\<rparr>"






section \<open>The decoder of the request body\<close>

text \<open>
  \<^verbatim>\<open>json.Unmarshal(body, &email)\<close> is a function of the library. It is modelled in three
  steps: the text is cut into tokens (a string token holds the decoded string), the
  tokens are checked against the grammar and built into a value, and the value is stored
  into the struct as the library does it: keys are matched without regard to case,
  unknown keys are skipped, \<^verbatim>\<open>null\<close> leaves a field as it is, and a value of the wrong
  kind makes the call fail. The handler only logs the error of a failed call, so the
  text of the error is not modelled. The handler takes its decoder from the environment:
  an environment whose field \<open>jsonUnmarshalEmail\<close> is \<open>Unmarshal\<close> decodes as the
  library does.
\<close>

subsection \<open>Strings\<close>

definition replacementChar :: string where
  \<comment> \<open>the UTF-8 encoding of U+FFFD\<close>
  "replacementChar = [CHR 0xEF, CHR 0xBF, CHR 0xBD]"

definition between :: "nat \<Rightarrow> char \<Rightarrow> nat \<Rightarrow> bool" where
  "between lo c hi = (lo \<le> of_char c \<and> (of_char c :: nat) \<le> hi)"

fun runeLen :: "string \<Rightarrow> nat" where
  \<comment> \<open>the width of the UTF-8 encoding of more than one byte that the string starts
      with, or 0 when it starts with none\<close>
  "runeLen (b0 # b1 # rest) =
     (if between 0xC2 b0 0xDF then (if between 0x80 b1 0xBF then 2 else 0)
      else if between 0xE0 b0 0xEF then
        (case rest of
           [] \<Rightarrow> 0
         | b2 # _ \<Rightarrow>
             if between (if b0 = CHR 0xE0 then 0xA0 else 0x80) b1
                  (if b0 = CHR 0xED then 0x9F else 0xBF) \<and>
                between 0x80 b2 0xBF
             then 3 else 0)
      else if between 0xF0 b0 0xF4 then
        (case rest of
           b2 # b3 # _ \<Rightarrow>
             if between (if b0 = CHR 0xF0 then 0x90 else 0x80) b1
                  (if b0 = CHR 0xF4 then 0x8F else 0xBF) \<and>
                between 0x80 b2 0xBF \<and> between 0x80 b3 0xBF
             then 4 else 0
         | _ \<Rightarrow> 0)
      else 0)"
| "runeLen s = 0"

definition EncodeRune :: "nat \<Rightarrow> string" where
  "EncodeRune r =
     (if r < 0x80 then [char_of r]
      else if r < 0x800 then [char_of (0xC0 + r div 64), char_of (0x80 + r mod 64)]
      else if (0xD800 \<le> r \<and> r < 0xE000) \<or> 0x10FFFF < r then replacementChar
      else if r < 0x10000 then
        [char_of (0xE0 + r div 4096), char_of (0x80 + r div 64 mod 64), char_of (0x80 + r mod 64)]
      else
        [char_of (0xF0 + r div 262144), char_of (0x80 + r div 4096 mod 64),
         char_of (0x80 + r div 64 mod 64), char_of (0x80 + r mod 64)])"

definition hexVal :: "char \<Rightarrow> nat option" where
  "hexVal c =
     (case decodeMap ''0123456789abcdef'' c of
        Some v \<Rightarrow> Some v
      | None \<Rightarrow> decodeMap ''0123456789ABCDEF'' c)"

definition getu4 :: "string \<Rightarrow> nat option" where
  \<comment> \<open>the number written by an escape \<^verbatim>\<open>\uXXXX\<close> at the start of the string\<close>
  "getu4 s =
     (case s of
        bs # u # a # b # c # d # rest \<Rightarrow>
          if bs = CHR 0x5C \<and> u = CHR ''u'' then
            (case (hexVal a, hexVal b, hexVal c, hexVal d) of
               (Some x3, Some x2, Some x1, Some x0) \<Rightarrow> Some (((x3 * 16 + x2) * 16 + x1) * 16 + x0)
             | _ \<Rightarrow> None)
          else None
      | _ \<Rightarrow> None)"

definition escapeChar :: "char \<Rightarrow> char option" where
  "escapeChar c =
     (if c = CHR 0x22 \<or> c = CHR 0x5C \<or> c = CHR ''/'' then Some c
      else if c = CHR ''b'' then Some (CHR 0x08)
      else if c = CHR ''f'' then Some (CHR 0x0C)
      else if c = CHR ''n'' then Some (CHR 0x0A)
      else if c = CHR ''r'' then Some (CHR 0x0D)
      else if c = CHR ''t'' then Some (CHR 0x09)
      else None)"

text \<open>
  The text between the quotes of a string literal is decoded from the left: an escape
  is replaced by what it stands for (a pair of surrogate escapes by one character, a
  surrogate without its partner by U+FFFD), a valid UTF-8 encoding is copied and any
  other byte from 0x80 on is replaced by U+FFFD. A control character and an unknown
  escape are errors of the syntax.
\<close>

fun unquote :: "string \<Rightarrow> string \<Rightarrow> string option" where
  "unquote [] acc = Some acc"
| "unquote (c # cs) acc =
     (if c = CHR 0x5C then
        (case cs of
           [] \<Rightarrow> None
         | d # ds \<Rightarrow>
             if d = CHR ''u'' then
               (case getu4 (c # cs) of
                  None \<Rightarrow> None
                | Some rr \<Rightarrow>
                    if 0xD800 \<le> rr \<and> rr < 0xE000 then
                      (case getu4 (drop 4 ds) of
                         None \<Rightarrow> unquote (drop 4 ds) (acc @ replacementChar)
                       | Some rr1 \<Rightarrow>
                           if rr < 0xDC00 \<and> 0xDC00 \<le> rr1 \<and> rr1 < 0xE000
                           then unquote (drop 10 ds)
                                  (acc @ EncodeRune ((rr - 0xD800) * 1024 + (rr1 - 0xDC00) + 0x10000))
                           else unquote (drop 4 ds) (acc @ replacementChar))
                    else unquote (drop 4 ds) (acc @ EncodeRune rr))
             else
               (case escapeChar d of
                  None \<Rightarrow> None
                | Some x \<Rightarrow> unquote ds (acc @ [x])))
      else if c = CHR 0x22 \<or> (of_char c :: nat) < 0x20 then None
      else if (of_char c :: nat) < 0x80 then unquote cs (acc @ [c])
      else if runeLen (c # cs) = 0 then unquote cs (acc @ replacementChar)
      else unquote (drop (runeLen (c # cs) - 1) cs) (acc @ take (runeLen (c # cs)) (c # cs)))"

fun stringEnd :: "string \<Rightarrow> nat option" where
  \<comment> \<open>the offset of the quote that closes a string literal\<close>
  "stringEnd [] = None"
| "stringEnd (c # cs) =
     (if c = CHR 0x22 then Some 0
      else if c = CHR 0x5C then
        (case cs of [] \<Rightarrow> None | d # ds \<Rightarrow> map_option (\<lambda>n. n + 2) (stringEnd ds))
      else map_option Suc (stringEnd cs))"

subsection \<open>Numbers\<close>

definition isDigit :: "char \<Rightarrow> bool" where
  "isDigit c = (c \<in> set digit)"

definition scanNumber :: "string \<Rightarrow> string option" where
  \<comment> \<open>what follows the number the string starts with: an optional minus, then 0 or a
      digit from 1 to 9 and more digits, then an optional fraction and exponent\<close>
  "scanNumber s =
     (let s1 = (case s of c # t \<Rightarrow> if c = CHR ''-'' then t else s | [] \<Rightarrow> s);
          s2 = (case s1 of
                  c # t \<Rightarrow>
                    if c = CHR ''0'' then Some t
                    else if isDigit c then Some (dropWhile isDigit t)
                    else None
                | [] \<Rightarrow> None);
          s3 = (case s2 of
                  None \<Rightarrow> None
                | Some [] \<Rightarrow> Some []
                | Some (c # t) \<Rightarrow>
                    if c = CHR ''.'' then
                      (if takeWhile isDigit t = [] then None else Some (dropWhile isDigit t))
                    else Some (c # t))
      in case s3 of
           None \<Rightarrow> None
         | Some [] \<Rightarrow> Some []
         | Some (c # t) \<Rightarrow>
             if c = CHR ''e'' \<or> c = CHR ''E'' then
               (let t' = (case t of
                            d # u \<Rightarrow> if d = CHR ''+'' \<or> d = CHR ''-'' then u else t
                          | [] \<Rightarrow> t)
                in if takeWhile isDigit t' = [] then None else Some (dropWhile isDigit t'))
             else Some (c # t))"

subsection \<open>Tokens\<close>

datatype token =
    TLBrace | TRBrace | TLBrack | TRBrack | TColon | TComma
  | TString string | TNumber | TTrue | TFalse | TNull

definition jsonSpace :: "char list" where
  "jsonSpace = [CHR '' '', CHR 0x09, CHR 0x0D, CHR 0x0A]"

fun lexer :: "string \<Rightarrow> token list option" where
  "lexer [] = Some []"
| "lexer (c # cs) =
     (if c \<in> set jsonSpace then lexer cs
      else if c = CHR ''{'' then map_option ((#) TLBrace) (lexer cs)
      else if c = CHR ''}'' then map_option ((#) TRBrace) (lexer cs)
      else if c = CHR ''['' then map_option ((#) TLBrack) (lexer cs)
      else if c = CHR '']'' then map_option ((#) TRBrack) (lexer cs)
      else if c = CHR '':'' then map_option ((#) TColon) (lexer cs)
      else if c = CHR '','' then map_option ((#) TComma) (lexer cs)
      else if c = CHR 0x22 then
        (case stringEnd cs of
           None \<Rightarrow> None
         | Some n \<Rightarrow>
             (case unquote (take n cs) [] of
                None \<Rightarrow> None
              | Some s \<Rightarrow> map_option ((#) (TString s)) (lexer (drop (Suc n) cs))))
      else if c = CHR ''t'' then
        (if take 3 cs = ''rue'' then map_option ((#) TTrue) (lexer (drop 3 cs)) else None)
      else if c = CHR ''f'' then
        (if take 4 cs = ''alse'' then map_option ((#) TFalse) (lexer (drop 4 cs)) else None)
      else if c = CHR ''n'' then
        (if take 3 cs = ''ull'' then map_option ((#) TNull) (lexer (drop 3 cs)) else None)
      else
        (case scanNumber (c # cs) of
           None \<Rightarrow> None
         | Some rest \<Rightarrow>
             map_option ((#) TNumber) (lexer (drop (length cs - length rest) cs))))"

subsection \<open>Values\<close>

datatype json =
    JString string | JNumber | JBool bool | JNull
  | JArray "json list" | JObject "(string \<times> json) list"

text \<open>
  The tokens are read one by one. An open array holds its elements so far, an open
  object its members so far and the key being read; the mode says what may come next,
  as the states of the library's scanner do. Arrays and objects may be nested 10000
  deep.
\<close>

datatype frame = InArray "json list" | InObject "(string \<times> json) list" string

datatype mode =
    BeginValue | BeginValueOrEmpty | BeginStringOrEmpty | BeginString
  | ObjectKey | EndValue | EndTop

type_synonym pstate = "frame list \<times> mode \<times> json option"

definition maxNestingDepth :: nat where
  "maxNestingDepth = 10000"

fun endValue :: "json \<Rightarrow> frame list \<Rightarrow> pstate" where
  "endValue v [] = ([], EndTop, Some v)"
| "endValue v (InArray elems # st) = (InArray (elems @ [v]) # st, EndValue, None)"
| "endValue v (InObject members key # st) =
     (InObject (members @ [(key, v)]) key # st, EndValue, None)"

definition parseStep :: "token \<Rightarrow> pstate \<Rightarrow> pstate option" where
  "parseStep t state =
     (case state of (st, m, result) \<Rightarrow>
      if m = BeginValue \<or> m = BeginValueOrEmpty then
        (case t of
           TString s \<Rightarrow> Some (endValue (JString s) st)
         | TNumber \<Rightarrow> Some (endValue JNumber st)
         | TTrue \<Rightarrow> Some (endValue (JBool True) st)
         | TFalse \<Rightarrow> Some (endValue (JBool False) st)
         | TNull \<Rightarrow> Some (endValue JNull st)
         | TLBrack \<Rightarrow>
             if maxNestingDepth \<le> length st then None
             else Some (InArray [] # st, BeginValueOrEmpty, None)
         | TLBrace \<Rightarrow>
             if maxNestingDepth \<le> length st then None
             else Some (InObject [] [] # st, BeginStringOrEmpty, None)
         | TRBrack \<Rightarrow>
             (case st of
                InArray elems # st' \<Rightarrow>
                  if m = BeginValueOrEmpty then Some (endValue (JArray elems) st') else None
              | _ \<Rightarrow> None)
         | _ \<Rightarrow> None)
      else if m = BeginStringOrEmpty \<or> m = BeginString then
        (case st of
           InObject members key # st' \<Rightarrow>
             (case t of
                TString k \<Rightarrow> Some (InObject members k # st', ObjectKey, None)
              | TRBrace \<Rightarrow>
                  if m = BeginStringOrEmpty then Some (endValue (JObject members) st') else None
              | _ \<Rightarrow> None)
         | _ \<Rightarrow> None)
      else if m = ObjectKey then
        (case t of TColon \<Rightarrow> Some (st, BeginValue, None) | _ \<Rightarrow> None)
      else if m = EndValue then
        (case st of
           InArray elems # st' \<Rightarrow>
             (case t of
                TComma \<Rightarrow> Some (st, BeginValue, None)
              | TRBrack \<Rightarrow> Some (endValue (JArray elems) st')
              | _ \<Rightarrow> None)
         | InObject members key # st' \<Rightarrow>
             (case t of
                TComma \<Rightarrow> Some (st, BeginString, None)
              | TRBrace \<Rightarrow> Some (endValue (JObject members) st')
              | _ \<Rightarrow> None)
         | [] \<Rightarrow> None)
      else None)"

fun parseAll :: "token list \<Rightarrow> pstate \<Rightarrow> pstate option" where
  "parseAll [] state = Some state"
| "parseAll (t # ts) state =
     (case parseStep t state of None \<Rightarrow> None | Some state' \<Rightarrow> parseAll ts state')"

definition parseJSON :: "string \<Rightarrow> json option" where
  "parseJSON s =
     (case lexer s of
        None \<Rightarrow> None
      | Some tokens \<Rightarrow>
          (case parseAll tokens ([], BeginValue, None) of
             Some ([], EndTop, Some v) \<Rightarrow> Some v
           | _ \<Rightarrow> None))"

subsection \<open>Storing a value into the struct\<close>

fun foldName :: "string \<Rightarrow> string" where
  \<comment> \<open>the key as it is compared: ASCII letters in upper case; the long s (U+017F) and
      the Kelvin sign (U+212A) are the letters outside ASCII that count as the ASCII
      letters S and K\<close>
  "foldName [] = []"
| "foldName (c # cs) =
     (if HasPrefix (c # cs) [CHR 0xC5, CHR 0xBF] then CHR ''S'' # foldName (drop 1 cs)
      else if HasPrefix (c # cs) [CHR 0xE2, CHR 0x84, CHR 0xAA] then CHR ''K'' # foldName (drop 2 cs)
      else if between 0x61 c 0x7A then char_of ((of_char c :: nat) - 32) # foldName cs
      else c # foldName cs)"

definition EqualFold :: "string \<Rightarrow> string \<Rightarrow> bool" where
  "EqualFold s t = (foldName s = foldName t)"

text \<open>
  Each function takes the value and what the field holds so far, and returns whether
  the value is of a wrong kind together with what the field holds then.
\<close>

definition storeString :: "json \<Rightarrow> string \<Rightarrow> bool \<times> string" where
  "storeString v old =
     (case v of JString s \<Rightarrow> (False, s) | JNull \<Rightarrow> (False, old) | _ \<Rightarrow> (True, old))"

definition storeAttachmentField :: "string \<times> json \<Rightarrow> bool \<times> AttachmentData \<Rightarrow> bool \<times> AttachmentData" where
  "storeAttachmentField member acc =
     (case member of (key, v) \<Rightarrow>
      case acc of (bad, a) \<Rightarrow>
        if EqualFold key ''fileName'' then
          (case storeString v (FileName a) of (b, s) \<Rightarrow> (bad \<or> b, a\<lparr>FileName := s\<rparr>))
        else if EqualFold key ''content'' then
          (case storeString v (Content a) of (b, s) \<Rightarrow> (bad \<or> b, a\<lparr>Content := s\<rparr>))
        else if EqualFold key ''mimeType'' then
          (case storeString v (MimeType a) of (b, s) \<Rightarrow> (bad \<or> b, a\<lparr>MimeType := s\<rparr>))
        else (bad, a))"

definition storeAttachment :: "json \<Rightarrow> AttachmentData \<Rightarrow> bool \<times> AttachmentData" where
  "storeAttachment v old =
     (case v of
        JObject members \<Rightarrow> foldl (\<lambda>acc member. storeAttachmentField member acc) (False, old) members
      | JNull \<Rightarrow> (False, old)
      | _ \<Rightarrow> (True, old))"

definition zeroAttachment :: AttachmentData where
  "zeroAttachment = \<lparr>FileName = [], Content = [], MimeType = []\<rparr>"

fun storeElements :: "json list \<Rightarrow> AttachmentData list \<Rightarrow> bool \<times> AttachmentData list" where
  \<comment> \<open>the i-th element is stored into the i-th element the slice held before, or into
      a new one\<close>
  "storeElements [] old = (False, [])"
| "storeElements (v # vs) old =
     (case storeAttachment v (case old of [] \<Rightarrow> zeroAttachment | a # _ \<Rightarrow> a) of (b, a') \<Rightarrow>
      case storeElements vs (drop 1 old) of (bs, as) \<Rightarrow> (b \<or> bs, a' # as))"

definition storeAttachments :: "json \<Rightarrow> AttachmentData list \<Rightarrow> bool \<times> AttachmentData list" where
  "storeAttachments v old =
     (case v of
        JArray elems \<Rightarrow> storeElements elems old
      | JNull \<Rightarrow> (False, [])
      | _ \<Rightarrow> (True, old))"

definition storeEmailField :: "string \<times> json \<Rightarrow> bool \<times> EmailData \<Rightarrow> bool \<times> EmailData" where
  "storeEmailField member acc =
     (case member of (key, v) \<Rightarrow>
      case acc of (bad, email) \<Rightarrow>
        if EqualFold key ''subject'' then
          (case storeString v (Subject email) of (b, s) \<Rightarrow> (bad \<or> b, email\<lparr>Subject := s\<rparr>))
        else if EqualFold key ''sender'' then
          (case storeString v (Sender email) of (b, s) \<Rightarrow> (bad \<or> b, email\<lparr>Sender := s\<rparr>))
        else if EqualFold key ''receivedAt'' then
          (case storeString v (EmailData.ReceivedAt email) of
             (b, s) \<Rightarrow> (bad \<or> b, email\<lparr>EmailData.ReceivedAt := s\<rparr>))
        else if EqualFold key ''attachments'' then
          (case storeAttachments v (Attachments email) of
             (b, as) \<Rightarrow> (bad \<or> b, email\<lparr>Attachments := as\<rparr>))
        else (bad, email))"

definition zeroEmail :: EmailData where
  "zeroEmail = \<lparr>Subject = [], Sender = [], EmailData.ReceivedAt = [], Attachments = []\<rparr>"

definition Unmarshal :: "bytes \<Rightarrow> error + EmailData" where
  "Unmarshal body =
     (case parseJSON body of
        None \<Rightarrow> Inl ''invalid JSON''
      | Some v \<Rightarrow>
          (case v of
             JObject members \<Rightarrow>
               (case foldl (\<lambda>acc member. storeEmailField member acc) (False, zeroEmail) members of
                  (bad, email) \<Rightarrow>
                    if bad then Inl ''json: cannot unmarshal into Go struct field'' else Inr email)
           | JNull \<Rightarrow> Inr zeroEmail
           | _ \<Rightarrow> Inl ''json: cannot unmarshal into Go value of type main.EmailData''))"


section \<open>The mail client\<close>

text \<open>
  The script \<^verbatim>\<open>mail_to_backend.applescript\<close> writes the body of the request as text, from
  the subject, the sender and the date of the message and, for every attachment, its
  name and its content in base64. It escapes the double quote, the return and the tab
  in the subject, the sender and the names; it writes the date and the content as they
  are.
\<close>

definition quoted :: "string \<Rightarrow> string" where
  "quoted s = CHR 0x22 # s @ [CHR 0x22]"

definition replaceText :: "string \<Rightarrow> char \<Rightarrow> string \<Rightarrow> string" where
  "replaceText theText oldChar newString =
     concat (map (\<lambda>c. if c = oldChar then newString else [c]) theText)"

definition escapeJSON :: "string \<Rightarrow> string" where
  "escapeJSON theString =
     replaceText
       (replaceText (replaceText theString (CHR 0x22) [CHR 0x5C, CHR 0x22])
          (CHR 0x0D) [CHR 0x5C, CHR ''n''])
       (CHR 0x09) [CHR 0x5C, CHR ''t'']"

fun attachmentsJSON :: "(string \<times> string) list \<Rightarrow> bool \<Rightarrow> string" where
  "attachmentsJSON [] firstAttachment = []"
| "attachmentsJSON ((fileName, base64Content) # rest) firstAttachment =
     (if firstAttachment then [] else '', '') @
     ''{'' @
     quoted ''fileName'' @ '': '' @ quoted (escapeJSON fileName) @ '', '' @
     quoted ''content'' @ '': '' @ quoted base64Content @ '', '' @
     quoted ''mimeType'' @ '': '' @ quoted ''audio/mpeg'' @
     ''}'' @
     attachmentsJSON rest False"

definition jsonData :: "string \<Rightarrow> string \<Rightarrow> string \<Rightarrow> (string \<times> string) list \<Rightarrow> string" where
  "jsonData emailSubject emailSender emailDate mp3Attachments =
     ''{'' @
     quoted ''subject'' @ '': '' @ quoted (escapeJSON emailSubject) @ '', '' @
     quoted ''sender'' @ '': '' @ quoted (escapeJSON emailSender) @ '', '' @
     quoted ''receivedAt'' @ '': '' @ quoted emailDate @ '', '' @
     quoted ''attachments'' @ '': ['' @
     attachmentsJSON mp3Attachments True @
     '']'' @
     ''}''"

text \<open>
  A text of the client is \<^emph>\<open>plain\<close> when it is made of the ASCII characters from the
  space on, the double quote and the backslash apart, and of occurrences of the bytes
  of U+202F.
\<close>

definition plainByte :: "char \<Rightarrow> bool" where
  "plainByte c =
     (0x20 \<le> (of_char c :: nat) \<and> (of_char c :: nat) < 0x80 \<and> c \<noteq> CHR 0x22 \<and> c \<noteq> CHR 0x5C)"

fun plainText :: "string \<Rightarrow> bool" where
  "plainText [] = True"
| "plainText (c # cs) =
     (if plainByte c then plainText cs
      else HasPrefix (c # cs) nastyTime \<and> plainText (drop 2 cs))"

definition spaced :: "string \<Rightarrow> string" where
  \<comment> \<open>the text with every occurrence of the bytes of U+202F replaced by a space\<close>
  "spaced s = ReplaceAll nastyTimeRegex s '' ''"





section \<open>Facts about the phone number pattern\<close>

lemma star_iter_nocap:
  assumes f: "\<And>st st'. st' \<in> set (f st) \<Longrightarrow> snd st' = snd st"
  shows "st' \<in> set (star_iter f n st) \<Longrightarrow> snd st' = snd st"
proof (induction n arbitrary: st)
  case 0
  then show ?case by simp
next
  case (Suc n)
  from Suc.prems consider (stop) "st' = st"
    | (go) st1 where "st1 \<in> set (f st)" "st' \<in> set (star_iter f n st1)"
    by auto
  then show ?case
  proof cases
    case stop
    then show ?thesis by simp
  next
    case go
    then show ?thesis using Suc.IH [of st1] f [of st1 st] by simp
  qed
qed

lemma funpow_nocap:
  fixes f :: "mstate \<Rightarrow> mstate list"
  assumes f: "\<And>st st'. st' \<in> set (f st) \<Longrightarrow> snd st' = snd st"
  shows "st' \<in> set (((\<lambda>sts. concat (map f sts)) ^^ n) [st]) \<Longrightarrow> snd st' = snd st"
proof (induction n arbitrary: st')
  case 0
  then show ?case by simp
next
  case (Suc n)
  then obtain st1 where "st1 \<in> set (((\<lambda>sts. concat (map f sts)) ^^ n) [st])" "st' \<in> set (f st1)"
    by auto
  then show ?case using Suc.IH [of st1] f [of st' st1] by simp
qed

lemma matchR_nocap:
  "nocap r \<Longrightarrow> st' \<in> set (matchR r st) \<Longrightarrow> snd st' = snd st"
proof (induction r arbitrary: st st')
  case (Cls cs)
  then show ?case by (auto split: list.splits if_splits)
next
  case (Opt r)
  from Opt.prems have "st' \<in> set (matchR r st) \<or> st' = st" by auto
  then show ?case using Opt.IH [of st' st] Opt.prems(1) by auto
next
  case (Star r)
  have "\<And>st st'. st' \<in> set (matchR r st) \<Longrightarrow> snd st' = snd st"
    using Star.IH Star.prems(1) by simp
  from star_iter_nocap [of "matchR r", OF this] Star.prems(2) show ?case by simp
next
  case (Rep n r)
  have "\<And>st st'. st' \<in> set (matchR r st) \<Longrightarrow> snd st' = snd st"
    using Rep.IH Rep.prems(1) by simp
  from funpow_nocap [of "matchR r", OF this] Rep.prems(2) show ?case by simp
next
  case (Seq r1 r2)
  from Seq.prems obtain st1 where "st1 \<in> set (matchR r1 st)" "st' \<in> set (matchR r2 st1)"
    by auto
  with Seq.IH(1) [of st1 st] Seq.IH(2) [of st' st1] Seq.prems(1) show ?case by simp
next
  case (Cap k r)
  then show ?case by simp
qed

lemma matchR_Cls:
  "st' \<in> set (matchR (Cls cs) st) \<Longrightarrow> 1 \<le> length (fst st) \<and> st' = (drop 1 (fst st), snd st)"
  by (cases "fst st") (auto split: if_splits simp: drop_Suc)

lemma matchR_Rep_Cls:
  "st' \<in> set (matchR (Rep n (Cls cs)) st) \<Longrightarrow>
     n \<le> length (fst st) \<and> st' = (drop n (fst st), snd st)"
proof (induction n arbitrary: st')
  case 0
  then show ?case by simp
next
  case (Suc n)
  then obtain st1 where a: "st1 \<in> set (matchR (Rep n (Cls cs)) st)"
      and b: "st' \<in> set (matchR (Cls cs) st1)"
    by auto
  from Suc.IH [OF a] have c: "n \<le> length (fst st)" "st1 = (drop n (fst st), snd st)"
    by auto
  from matchR_Cls [OF b] c show ?case
    by auto
qed

lemma matchR_Cap_Rep_Cls:
  assumes "st' \<in> set (matchR (Cap k (Rep n (Cls cs))) st)"
  shows "n \<le> length (fst st) \<and> st' = (drop n (fst st), (k, take n (fst st)) # snd st)"
proof -
  from assms obtain st1 where a: "st1 \<in> set (matchR (Rep n (Cls cs)) st)"
     and b: "st' = (fst st1, (k, take (length (fst st) - length (fst st1)) (fst st)) # snd st1)"
    by auto
  from matchR_Rep_Cls [OF a] b show ?thesis by auto
qed

lemma matchR_Seq:
  "st' \<in> set (matchR (Seq r1 r2) st) \<Longrightarrow> \<exists>st1 \<in> set (matchR r1 st). st' \<in> set (matchR r2 st1)"
  by auto

lemma matchR_phoneRegex:
  assumes "st' \<in> set (matchR phoneRegex (s, []))"
  shows "\<exists>a b c. snd st' = [(3, c), (2, b), (1, a)] \<and> length a = 3 \<and> length b = 3 \<and> length c = 4"
proof -
  from assms obtain s1 s2 s3 s4 s5 s6 s7 s8 s9 where
    1: "s1 \<in> set (matchR (Opt (Cls ''+'')) (s, []))" and
    2: "s2 \<in> set (matchR (Opt (Cls ''1'')) s1)" and
    3: "s3 \<in> set (matchR (Star (Cls space)) s2)" and
    4: "s4 \<in> set (matchR (Opt (Cls ''('')) s3)" and
    5: "s5 \<in> set (matchR (Cap 1 (Rep 3 (Cls digit))) s4)" and
    6: "s6 \<in> set (matchR (Opt (Cls '')'')) s5)" and
    7: "s7 \<in> set (matchR (Opt (Cls sep)) s6)" and
    8: "s8 \<in> set (matchR (Cap 2 (Rep 3 (Cls digit))) s7)" and
    9: "s9 \<in> set (matchR (Opt (Cls sep)) s8)" and
    10: "st' \<in> set (matchR (Cap 3 (Rep 4 (Cls digit))) s9)"
    unfolding phoneRegex_def by (blast dest!: matchR_Seq)
  have n4: "snd s4 = []"
    using matchR_nocap [OF _ 1] matchR_nocap [OF _ 2] matchR_nocap [OF _ 3] matchR_nocap [OF _ 4]
    by simp
  from matchR_Cap_Rep_Cls [OF 5] n4
  have c5: "3 \<le> length (fst s4)" "snd s5 = [(1, take 3 (fst s4))]" by auto
  have n7: "snd s7 = snd s5"
    using matchR_nocap [OF _ 6] matchR_nocap [OF _ 7] by simp
  from matchR_Cap_Rep_Cls [OF 8] n7 c5
  have c8: "3 \<le> length (fst s7)" "snd s8 = [(2, take 3 (fst s7)), (1, take 3 (fst s4))]" by auto
  have n9: "snd s9 = snd s8"
    using matchR_nocap [OF _ 9] by simp
  from matchR_Cap_Rep_Cls [OF 10] n9 c8
  have c10: "4 \<le> length (fst s9)"
    "snd st' = [(3, take 4 (fst s9)), (2, take 3 (fst s7)), (1, take 3 (fst s4))]" by auto
  from c5 c8 c10 show ?thesis by simp
qed

lemma numSubexp_phoneRegex: "numSubexp phoneRegex = 3"
  by (simp add: phoneRegex_def)

lemma submatches_phoneRegex:
  assumes "st' \<in> set (matchR phoneRegex (s, []))"
  shows "\<exists>w a b c. submatches phoneRegex s st' = [w, a, b, c] \<and> length a = 3 \<and> length b = 3 \<and> length c = 4"
proof -
  from matchR_phoneRegex [OF assms] obtain a b c where
    "snd st' = [(3, c), (2, b), (1, a)]" "length a = 3" "length b = 3" "length c = 4" by blast
  then show ?thesis
    by (simp add: submatches_def numSubexp_phoneRegex upt_rec)
qed

lemma FindStringSubmatch_phoneRegex:
  "FindStringSubmatch phoneRegex s = [] \<or>
   (\<exists>w a b c. FindStringSubmatch phoneRegex s = [w, a, b, c] \<and>
      length a = 3 \<and> length b = 3 \<and> length c = 4)"
proof (induction s)
  case Nil
  show ?case
  proof (cases "matchR phoneRegex ([], [])")
    case Nil
    then show ?thesis by simp
  next
    case (Cons st sts)
    then have "st \<in> set (matchR phoneRegex ([], []))" by simp
    from submatches_phoneRegex [OF this] Cons show ?thesis by simp
  qed
next
  case (Cons x xs)
  show ?case
  proof (cases "matchR phoneRegex (x # xs, [])")
    case Nil
    then show ?thesis using Cons.IH by simp
  next
    case (Cons st sts)
    then have "st \<in> set (matchR phoneRegex (x # xs, []))" by simp
    from submatches_phoneRegex [OF this] Cons show ?thesis by simp
  qed
qed

section \<open>Facts about base64\<close>

lemma of_char_lt: "(of_char c :: nat) < 256"
proof -
  have "(of_char c :: nat) mod 256 < 256" by simp
  then show ?thesis by (simp only: of_char_mod_256)
qed

lemma char_of_byte: "char_of (n * 256 + of_char c :: nat) = c"
proof -
  have "char_of (n * 256 + of_char c :: nat) = char_of ((n * 256 + of_char c) mod 256 :: nat)"
    by (simp only: char_of_mod_256)
  also have "(n * 256 + of_char c) mod 256 = (of_char c :: nat)"
    by simp
  finally show ?thesis by simp
qed

lemma sextets:
  fixes val :: nat
  assumes "val < 16777216"
  shows "val div 262144 mod 64 * 262144 + val div 4096 mod 64 * 4096 + val div 64 mod 64 * 64 + val mod 64 = val"
proof -
  have m1: "val mod 4096 = 64 * (val div 64 mod 64) + val mod 64"
    using mod_mult2_eq [of val 64 64] by simp
  have m2: "val mod 262144 = 4096 * (val div 4096 mod 64) + val mod 4096"
    using mod_mult2_eq [of val 4096 64] by simp
  have m3: "val mod 16777216 = 262144 * (val div 262144 mod 64) + val mod 262144"
    using mod_mult2_eq [of val 262144 64] by simp
  have "val mod 16777216 = val" using assms by simp
  with m1 m2 m3 show ?thesis by linarith
qed

lemma bytes_of_val:
  fixes a b c :: char
  defines "val \<equiv> (of_char a * 65536 + of_char b * 256 + of_char c :: nat)"
  shows "char_of (val div 65536) = a" "char_of (val div 256) = b" "char_of val = c"
proof -
  have B: "(of_char b :: nat) < 256" and C: "(of_char c :: nat) < 256"
    by (rule of_char_lt)+
  have BC: "(of_char b * 256 + of_char c :: nat) < 65536" using B C by linarith
  have "val div 65536 = of_char a"
    by (rule div_nat_eqI) (use BC in \<open>simp_all add: val_def\<close>)
  then have 1: "val div 65536 = 0 * 256 + of_char a" by simp
  have 2: "val div 256 = of_char a * 256 + of_char b"
    by (rule div_nat_eqI) (use B C in \<open>simp_all add: val_def\<close>)
  have 3: "val = (of_char a * 256 + of_char b) * 256 + of_char c" unfolding val_def by simp
  show "char_of (val div 65536) = a" unfolding 1 by (rule char_of_byte)
  show "char_of (val div 256) = b" unfolding 2 by (rule char_of_byte)
  show "char_of val = c" by (subst 3) (rule char_of_byte)
qed

lemma quantum4:
  fixes a b c :: char
  defines "val \<equiv> (of_char a * 65536 + of_char b * 256 + of_char c :: nat)"
  shows "quantumBytes [val div 262144 mod 64, val div 4096 mod 64, val div 64 mod 64, val mod 64] = [a, b, c]"
proof -
  have A: "(of_char a :: nat) < 256" and B: "(of_char b :: nat) < 256" and C: "(of_char c :: nat) < 256"
    by (rule of_char_lt)+
  have "val < 16777216" using A B C unfolding val_def by linarith
  note r = sextets [OF this]
  have "quantumBytes [val div 262144 mod 64, val div 4096 mod 64, val div 64 mod 64, val mod 64] =
     (let v = val div 262144 mod 64 * 262144 + val div 4096 mod 64 * 4096 + val div 64 mod 64 * 64 + val mod 64
      in [char_of (v div 65536), char_of (v div 256), char_of v])"
    unfolding quantumBytes_def by simp
  also have "\<dots> = [char_of (val div 65536), char_of (val div 256), char_of val]"
    unfolding r by simp
  also have "\<dots> = [a, b, c]"
    unfolding val_def by (simp only: bytes_of_val)
  finally show ?thesis .
qed


lemma quantum3:
  fixes a b :: char
  defines "val \<equiv> (of_char a * 65536 + of_char b * 256 :: nat)"
  shows "quantumBytes [val div 262144 mod 64, val div 4096 mod 64, val div 64 mod 64] = [a, b]"
proof -
  have A: "(of_char a :: nat) < 256" and B: "(of_char b :: nat) < 256"
    by (rule of_char_lt)+
  have "val < 16777216" using A B unfolding val_def by linarith
  note r = sextets [OF this]
  have "val = (of_char a * 1024 + of_char b * 4) * 64" unfolding val_def by simp
  then have z: "val mod 64 = 0" by simp
  have v: "val = of_char a * 65536 + of_char b * 256 + of_char (CHR 0x00)"
    unfolding val_def by simp
  have "quantumBytes [val div 262144 mod 64, val div 4096 mod 64, val div 64 mod 64] =
     (let v = val div 262144 mod 64 * 262144 + val div 4096 mod 64 * 4096 + val div 64 mod 64 * 64 + val mod 64
      in [char_of (v div 65536), char_of (v div 256)])"
    unfolding quantumBytes_def z by simp
  also have "\<dots> = [char_of (val div 65536), char_of (val div 256)]"
    unfolding r by simp
  also have "\<dots> = [a, b]"
    unfolding v by (simp only: bytes_of_val)
  finally show ?thesis .
qed

lemma quantum2:
  fixes a :: char
  defines "val \<equiv> (of_char a * 65536 :: nat)"
  shows "quantumBytes [val div 262144 mod 64, val div 4096 mod 64] = [a]"
proof -
  have A: "(of_char a :: nat) < 256"
    by (rule of_char_lt)
  have "val < 16777216" using A unfolding val_def by linarith
  note r = sextets [OF this]
  have "val = (of_char a * 1024) * 64" unfolding val_def by simp
  then have z: "val mod 64 = 0" by simp
  have "val div 64 = (of_char a * 16) * 64" unfolding val_def by simp
  then have z2: "val div 64 mod 64 = 0" by simp
  have v: "val = of_char a * 65536 + of_char (CHR 0x00) * 256 + of_char (CHR 0x00)"
    unfolding val_def by simp
  have "quantumBytes [val div 262144 mod 64, val div 4096 mod 64] =
     (let v = val div 262144 mod 64 * 262144 + val div 4096 mod 64 * 4096 + val div 64 mod 64 * 64 + val mod 64
      in [char_of (v div 65536)])"
    unfolding quantumBytes_def z z2 by simp
  also have "\<dots> = [char_of (val div 65536)]"
    unfolding r by simp
  also have "\<dots> = [a]"
    unfolding v by (simp only: bytes_of_val)
  finally show ?thesis .
qed

lemma distinct_encodeStd: "distinct encodeStd"
  by (simp add: encodeStd_def)

lemma length_encodeStd: "length encodeStd = 64"
  by (simp add: encodeStd_def)

lemma decodeMap_nth:
  "distinct enc \<Longrightarrow> i < length enc \<Longrightarrow> decodeMap enc (enc ! i) = Some i"
proof (induction enc arbitrary: i)
  case Nil
  then show ?case by simp
next
  case (Cons x xs)
  show ?case
  proof (cases i)
    case 0
    then show ?thesis by simp
  next
    case (Suc j)
    with Cons.prems have "j < length xs" "xs ! j \<in> set xs" "x \<notin> set xs" "distinct xs"
      by auto
    with Cons.IH [of j] Suc show ?thesis by auto
  qed
qed

lemma decodeMap_encodeStd: "decodeMap encodeStd (encodeStd ! (n mod 64)) = Some (n mod 64)"
  using decodeMap_nth [OF distinct_encodeStd, of "n mod 64"] by (simp add: length_encodeStd)

lemma decodeMap_padChar: "decodeMap encodeStd padChar = None"
  by (simp add: encodeStd_def padChar_def)

lemma dec_step:
  "length dbuf < 3 \<Longrightarrow>
   decodeFrom encodeStd dbuf (encodeStd ! (n mod 64) # cs) si =
   decodeFrom encodeStd (dbuf @ [n mod 64]) cs (Suc si)"
  by (simp add: decodeMap_encodeStd)

lemma dec_last:
  "decodeFrom encodeStd [v0, v1, v2] (encodeStd ! (n mod 64) # cs) si =
   (case decodeFrom encodeStd [] cs (Suc si) of
      Inl e \<Rightarrow> Inl e
    | Inr out \<Rightarrow> Inr (quantumBytes [v0, v1, v2, n mod 64] @ out))"
  by (simp add: decodeMap_encodeStd cong: sum.case_cong)

lemma dec_group4:
  "decodeFrom encodeStd []
     (encodeStd ! (n0 mod 64) # encodeStd ! (n1 mod 64) # encodeStd ! (n2 mod 64) #
      encodeStd ! (n3 mod 64) # cs) si =
   (case decodeFrom encodeStd [] cs (Suc (Suc (Suc (Suc si)))) of
      Inl e \<Rightarrow> Inl e
    | Inr out \<Rightarrow> Inr (quantumBytes [n0 mod 64, n1 mod 64, n2 mod 64, n3 mod 64] @ out))"
  by (simp add: dec_step dec_last del: decodeFrom.simps)

lemma dec_pad1:
  "decodeFrom encodeStd [v0, v1, v2] [padChar] si = Inr (quantumBytes [v0, v1, v2])"
  by (simp add: decodeMap_padChar isNewline_def padChar_def [symmetric] decodePadding_def
      finishPadding_def) (simp add: padChar_def isNewline_def)

lemma dec_pad2:
  "decodeFrom encodeStd [v0, v1] [padChar, padChar] si = Inr (quantumBytes [v0, v1])"
  by (simp add: decodeMap_padChar isNewline_def padChar_def [symmetric] decodePadding_def
      finishPadding_def) (simp add: padChar_def isNewline_def)

lemma dec_group3:
  "decodeFrom encodeStd []
     [encodeStd ! (n0 mod 64), encodeStd ! (n1 mod 64), encodeStd ! (n2 mod 64), padChar] si =
   Inr (quantumBytes [n0 mod 64, n1 mod 64, n2 mod 64])"
  by (simp add: dec_step dec_pad1 del: decodeFrom.simps)

lemma dec_group2:
  "decodeFrom encodeStd []
     [encodeStd ! (n0 mod 64), encodeStd ! (n1 mod 64), padChar, padChar] si =
   Inr (quantumBytes [n0 mod 64, n1 mod 64])"
  by (simp add: dec_step dec_pad2 del: decodeFrom.simps)

lemma decode_encode_aux:
  "enc = encodeStd \<Longrightarrow> decodeFrom enc [] (EncodeToString enc X) si = Inr X"
proof (induction enc X arbitrary: si rule: EncodeToString.induct)
  case (1 enc)
  show ?case by simp
next
  case (2 enc a)
  show ?case
    unfolding "2.prems" EncodeToString.simps Let_def dec_group2 quantum2 ..
next
  case (3 enc a b)
  show ?case
    unfolding "3.prems" EncodeToString.simps Let_def dec_group3 quantum3 ..
next
  case (4 enc a b c rest)
  have "decodeFrom encodeStd [] (EncodeToString encodeStd rest) (Suc (Suc (Suc (Suc si)))) = Inr rest"
    using "4.IH" [OF refl "4.prems"] "4.prems" by simp
  then show ?case
    unfolding "4.prems" EncodeToString.simps Let_def append.simps dec_group4 quantum4
    by simp
qed

lemma DecodeString_EncodeToString: "DecodeString encodeStd (EncodeToString encodeStd X) = Inr X"
  by (simp add: DecodeString_def decode_encode_aux)

section \<open>Facts about the phone number extractor\<close>

lemma extractPhoneNumber_no_match:
  "FindStringSubmatch phoneRegex s = [] \<Longrightarrow> extractPhoneNumber s = Inr []"
  by (simp add: extractPhoneNumber_def)

lemma extractPhoneNumber_match:
  assumes "FindStringSubmatch phoneRegex s = [w, a, b, c]" and "length c = 4"
  shows "extractPhoneNumber s =
     Inr (if a = ''704'' \<and> drop 2 c = ''90'' then ''I HATE THIS MAN''
          else ''('' @ a @ '') '' @ b @ ''-'' @ c)"
  using assms by (simp add: extractPhoneNumber_def sliceFrom_def formatPhone_def Let_def)

lemma extractPhoneNumber_total: "\<exists>res. extractPhoneNumber s = Inr res"
proof -
  from FindStringSubmatch_phoneRegex [of s] show ?thesis
  proof
    assume "FindStringSubmatch phoneRegex s = []"
    then show ?thesis by (simp add: extractPhoneNumber_no_match)
  next
    assume "\<exists>w a b c. FindStringSubmatch phoneRegex s = [w, a, b, c] \<and>
      length a = 3 \<and> length b = 3 \<and> length c = 4"
    then obtain w a b c where "FindStringSubmatch phoneRegex s = [w, a, b, c]" "length c = 4"
      by blast
    from extractPhoneNumber_match [OF this] show ?thesis by blast
  qed
qed


section \<open>Facts about the ingestion loop\<close>

lemma processAttachments_skip:
  "\<forall>a \<in> set before. \<not> isMP3 a \<Longrightarrow>
   processAttachments e phoneNumber receivedAt (before @ rest) recordingID w =
   processAttachments e phoneNumber receivedAt rest recordingID w"
  by (induction before) simp_all

lemma webhookHandler_parsed:
  assumes "Method r = ''POST''" and "Body r = Inr body"
    and "jsonUnmarshalEmail e (ReplaceAll nastyTimeRegex body '' '') = Inr email"
    and "extractPhoneNumber (Subject email) = Inr phone"
  shows "webhookHandler e r w =
     (JsonResponse 201
        [(''status'', ''success''), (''message'', ''Recording data received''),
         (''id'', fst (processAttachments e (if phone = [] then ''Unknown'' else phone)
            (if EmailData.ReceivedAt email = [] then timeNowFormat e else EmailData.ReceivedAt email)
            (Attachments email) [] w))],
      snd (processAttachments e (if phone = [] then ''Unknown'' else phone)
            (if EmailData.ReceivedAt email = [] then timeNowFormat e else EmailData.ReceivedAt email)
            (Attachments email) [] w))"
  using assms by (simp add: webhookHandler_def Let_def split: prod.splits)

lemma digits_nonempty: "digits n \<noteq> []"
  by (subst digits.simps) simp

lemma Itoa_nonempty: "Itoa i \<noteq> []"
  by (simp add: Itoa_def digits_nonempty)

lemma EncodeToString_nonempty: "xs \<noteq> [] \<Longrightarrow> EncodeToString enc xs \<noteq> []"
  by (cases "(enc, xs)" rule: EncodeToString.cases) (simp_all add: Let_def)

lemma generateID_nonempty: "fst (generateID e w) \<noteq> []"
proof (cases "randRead e (randCalls w)")
  case (Inl err)
  then show ?thesis by (simp add: generateID_def Let_def Itoa_nonempty)
next
  case (Inr bs)
  have "length (take 16 (bs @ replicate 16 (CHR 0x00))) = 16" by simp
  then have "take 16 (bs @ replicate 16 (CHR 0x00)) \<noteq> []" by auto
  from EncodeToString_nonempty [OF this] Inr show ?thesis
    by (simp add: generateID_def Let_def)
qed

lemma generateID_world:
  "rows (snd (generateID e w)) = rows w"
  "titleCalls (snd (generateID e w)) = titleCalls w"
  "files (snd (generateID e w)) = files w"
  by (simp_all add: generateID_def Let_def split: sum.splits)

lemma saveAttachment_world:
  "rows (snd (saveAttachment e a p w)) = rows w"
  "titleCalls (snd (saveAttachment e a p w)) = titleCalls w"
  by (simp_all add: saveAttachment_def split: sum.splits option.splits prod.splits)

lemma transcribeAudio_world:
  "rows (snd (transcribeAudio e p w)) = rows w"
  "titleCalls (snd (transcribeAudio e p w)) = titleCalls w"
  by (simp_all add: transcribeAudio_def Let_def Remove_def
      split: sum.splits option.splits prod.splits bool.splits)

lemma generateTitle_world:
  "rows (snd (generateTitle e t w)) = rows w"
  by (simp add: generateTitle_def Let_def split: sum.splits option.splits prod.splits)

lemma enrich_fields:
  "ID (fst (enrich e recording w)) = ID recording"
  "PhoneNumber (fst (enrich e recording w)) = PhoneNumber recording"
  "Recording.ReceivedAt (fst (enrich e recording w)) = Recording.ReceivedAt recording"
  "MP3FileName (fst (enrich e recording w)) = MP3FileName recording"
  "FilePath (fst (enrich e recording w)) = FilePath recording"
  "FileSize (fst (enrich e recording w)) = FileSize recording"
  by (simp_all add: enrich_def split: sum.splits option.splits prod.splits)

lemma enrich_rows: "rows (snd (enrich e recording w)) = rows w"
proof -
  have t: "\<And>x w1. transcribeAudio e (FilePath recording) w = (x, w1) \<Longrightarrow> rows w1 = rows w"
    using transcribeAudio_world(1) [of e "FilePath recording" w] by simp
  have g: "\<And>t x w1 w2. generateTitle e t w1 = (x, w2) \<Longrightarrow> rows w2 = rows w1"
    using generateTitle_world by (metis snd_conv)
  show ?thesis
    by (auto simp: enrich_def split: sum.splits option.splits prod.splits dest!: t g)
qed

lemma enrich_failed:
  assumes "transcribeAudio e (FilePath recording) w = (Inl err, w1)"
  shows "enrich e recording w =
    (recording\<lparr>Transcription := ''Transcription failed: '' @ err, Title := Untitled\<rparr>, w1)"
  using assms by (simp add: enrich_def)

lemma insertRecording_rows:
  "rows (snd (insertRecording e recording w)) =
     (if dbExec e recording = None \<and> ID recording \<notin> set (map ID (rows w))
      then rows w @ [recording] else rows w)"
  by (simp add: insertRecording_def split: option.splits)

lemma insertRecording_world:
  "titleCalls (snd (insertRecording e recording w)) = titleCalls w"
  by (simp add: insertRecording_def split: option.splits)

lemma processAttachments_rows:
  "rows (snd (processAttachments e phoneNumber receivedAt as recordingID w)) = rows w \<or>
   (\<exists>recording. rows (snd (processAttachments e phoneNumber receivedAt as recordingID w)) =
        rows w @ [recording] \<and>
      PhoneNumber recording = phoneNumber \<and> Recording.ReceivedAt recording = receivedAt \<and>
      ID recording = fst (processAttachments e phoneNumber receivedAt as recordingID w))"
proof (induction as arbitrary: recordingID w)
  case Nil
  show ?case by simp
next
  case (Cons a as)
  show ?case
  proof (cases "isMP3 a")
    case False
    with Cons.IH [of recordingID w] show ?thesis by simp
  next
    case True
    obtain rid w1 where gen: "generateID e w = (rid, w1)" by (cases "generateID e w")
    then have r1: "rows w1 = rows w" using generateID_world(1) [of e w] by simp
    obtain res w2 where save: "saveAttachment e a (mp3Path rid) w1 = (res, w2)"
      by (cases "saveAttachment e a (mp3Path rid) w1")
    then have r2: "rows w2 = rows w" using saveAttachment_world(1) [of e a "mp3Path rid" w1] r1 by simp
    show ?thesis
    proof (cases res)
      case (Some err)
      with True gen save Cons.IH [of rid w2] r2 show ?thesis by simp
    next
      case None
      show ?thesis
      proof (cases "Stat e (mp3Path rid) w2")
        case (Inl err)
        with None True gen save Cons.IH [of rid w2] r2 show ?thesis by simp
      next
        case (Inr fileSize)
        define rec0 where "rec0 = \<lparr>ID = rid, PhoneNumber = phoneNumber,
                          Recording.ReceivedAt = receivedAt, MP3FileName = FileName a,
                          FilePath = mp3Path rid, FileSize = fileSize, Transcription = [], Title = []\<rparr>"
        obtain rec1 w3 where en: "enrich e rec0 w2 = (rec1, w3)" by (cases "enrich e rec0 w2")
        then have r3: "rows w3 = rows w" using enrich_rows [of e rec0 w2] r2 by simp
        have f: "ID rec1 = rid" "PhoneNumber rec1 = phoneNumber" "Recording.ReceivedAt rec1 = receivedAt"
          using enrich_fields(1-3) [of e rec0 w2] en by (simp_all add: rec0_def)
        have p: "processAttachments e phoneNumber receivedAt (a # as) recordingID w =
            (rid, snd (insertRecording e rec1 w3))"
          using True gen save None Inr en by (simp add: rec0_def Let_def)
        show ?thesis
          unfolding p using insertRecording_rows [of e rec1 w3] r3 f by auto
      qed
    qed
  qed
qed

lemma failed_save:
  assumes "Method r = ''POST''" and "Body r = Inr body"
    and "jsonUnmarshalEmail e (ReplaceAll nastyTimeRegex body '' '') = Inr email"
    and "Attachments email = before @ attachment # rest"
    and "\<forall>a \<in> set before \<union> set rest. \<not> isMP3 a"
    and "isMP3 attachment"
    and "generateID e w = (recordingID, w1)"
    and "saveAttachment e attachment (mp3Path recordingID) w1 = (Some err, w2)"
  shows "webhookHandler e r w =
     (JsonResponse 201
        [(''status'', ''success''), (''message'', ''Recording data received''),
         (''id'', recordingID)], w2)"
proof -
  obtain phone where p: "extractPhoneNumber (Subject email) = Inr phone"
    using extractPhoneNumber_total by blast
  have b: "\<forall>a \<in> set before. \<not> isMP3 a" and c: "\<forall>a \<in> set rest. \<not> isMP3 a"
    using assms(5) by auto
  have "\<And>ph ra. processAttachments e ph ra (Attachments email) [] w = (recordingID, w2)"
    unfolding assms(4) processAttachments_skip [OF b]
    using assms(6-8) processAttachments_skip [OF c, of e _ _ "[]" recordingID w2]
    by simp
  with webhookHandler_parsed [OF assms(1-3) p, of w] show ?thesis by simp
qed

lemma processAttachments_continued:
  "continuedPast e before recordingID w = Some (recordingID0, w0) \<Longrightarrow>
   processAttachments e phoneNumber receivedAt (before @ rest) recordingID w =
   processAttachments e phoneNumber receivedAt rest recordingID0 w0"
proof (induction before arbitrary: recordingID w)
  case Nil
  then show ?case by simp
next
  case (Cons a before)
  show ?case
  proof (cases "isMP3 a")
    case False
    with Cons show ?thesis by simp
  next
    case True
    obtain rid w1 where gen: "generateID e w = (rid, w1)" by (cases "generateID e w")
    obtain res w2 where save: "saveAttachment e a (mp3Path rid) w1 = (res, w2)"
      by (cases "saveAttachment e a (mp3Path rid) w1")
    show ?thesis
    proof (cases res)
      case (Some err)
      with True gen save Cons.prems have "continuedPast e before rid w2 = Some (recordingID0, w0)"
        by simp
      from Cons.IH [OF this] True gen save Some show ?thesis by simp
    next
      case None
      show ?thesis
      proof (cases "Stat e (mp3Path rid) w2")
        case (Inl err)
        with None True gen save Cons.prems have "continuedPast e before rid w2 = Some (recordingID0, w0)"
          by simp
        from Cons.IH [OF this] True gen save None Inl show ?thesis by simp
      next
        case (Inr fileSize)
        with None True gen save Cons.prems show ?thesis by simp
      qed
    qed
  qed
qed

lemma continuedPast_world:
  "continuedPast e before recordingID w = Some (recordingID0, w0) \<Longrightarrow>
   rows w0 = rows w \<and> titleCalls w0 = titleCalls w"
proof (induction before arbitrary: recordingID w)
  case Nil
  then show ?case by simp
next
  case (Cons a before)
  show ?case
  proof (cases "isMP3 a")
    case False
    with Cons show ?thesis by simp
  next
    case True
    obtain rid w1 where gen: "generateID e w = (rid, w1)" by (cases "generateID e w")
    obtain res w2 where save: "saveAttachment e a (mp3Path rid) w1 = (res, w2)"
      by (cases "saveAttachment e a (mp3Path rid) w1")
    have w2: "rows w2 = rows w" "titleCalls w2 = titleCalls w"
      using generateID_world(1,2) [of e w] saveAttachment_world [of e a "mp3Path rid" w1] gen save
      by simp_all
    show ?thesis
    proof (cases res)
      case (Some err)
      with True gen save Cons.prems have "continuedPast e before rid w2 = Some (recordingID0, w0)"
        by simp
      from Cons.IH [OF this] w2 show ?thesis by simp
    next
      case None
      show ?thesis
      proof (cases "Stat e (mp3Path rid) w2")
        case (Inl err)
        with None True gen save Cons.prems have "continuedPast e before rid w2 = Some (recordingID0, w0)"
          by simp
        from Cons.IH [OF this] w2 show ?thesis by simp
      next
        case (Inr fileSize)
        with None True gen save Cons.prems show ?thesis by simp
      qed
    qed
  qed
qed

text \<open>
  Every run of the loop either continues past all the attachments, or continues past
  some of them and then saves one, which is the one it transcribes.
\<close>

lemma continuedPast_cases:
  "(\<exists>recordingID0 w0. continuedPast e attachments recordingID w = Some (recordingID0, w0)) \<or>
   (\<exists>before attachment rest recordingID0 w0 recordingID' w1 w2 fileSize.
      attachments = before @ attachment # rest \<and>
      continuedPast e before recordingID w = Some (recordingID0, w0) \<and>
      isMP3 attachment \<and>
      generateID e w0 = (recordingID', w1) \<and>
      saveAttachment e attachment (mp3Path recordingID') w1 = (None, w2) \<and>
      Stat e (mp3Path recordingID') w2 = Inr fileSize)"
proof (induction attachments arbitrary: recordingID w)
  case Nil
  show ?case by simp
next
  case (Cons a as)
  show ?case
  proof (cases "isMP3 a")
    case False
    from Cons.IH [of recordingID w] show ?thesis
    proof
      assume "\<exists>recordingID0 w0. continuedPast e as recordingID w = Some (recordingID0, w0)"
      with False show ?thesis by simp
    next
      assume "\<exists>before attachment rest recordingID0 w0 recordingID' w1 w2 fileSize.
        as = before @ attachment # rest \<and>
        continuedPast e before recordingID w = Some (recordingID0, w0) \<and>
        isMP3 attachment \<and>
        generateID e w0 = (recordingID', w1) \<and>
        saveAttachment e attachment (mp3Path recordingID') w1 = (None, w2) \<and>
        Stat e (mp3Path recordingID') w2 = Inr fileSize"
      then obtain before attachment rest recordingID0 w0 recordingID' w1 w2 fileSize where
        h: "as = before @ attachment # rest"
        "continuedPast e before recordingID w = Some (recordingID0, w0)"
        "isMP3 attachment"
        "generateID e w0 = (recordingID', w1)"
        "saveAttachment e attachment (mp3Path recordingID') w1 = (None, w2)"
        "Stat e (mp3Path recordingID') w2 = Inr fileSize"
        by blast
      have "a # as = (a # before) @ attachment # rest" using h(1) by simp
      moreover have "continuedPast e (a # before) recordingID w = Some (recordingID0, w0)"
        using False h(2) by simp
      ultimately show ?thesis using h(3-6) by blast
    qed
  next
    case True
    obtain rid w1 where gen: "generateID e w = (rid, w1)" by (cases "generateID e w")
    obtain res w2 where save: "saveAttachment e a (mp3Path rid) w1 = (res, w2)"
      by (cases "saveAttachment e a (mp3Path rid) w1")
    have reached: ?thesis if "res = None" "Stat e (mp3Path rid) w2 = Inr fileSize" for fileSize
    proof -
      have "a # as = [] @ a # as" by simp
      moreover have "continuedPast e [] recordingID w = Some (recordingID, w)" by simp
      ultimately show ?thesis using True gen save that by blast
    qed
    have cont: ?thesis
      if c: "continuedPast e (a # as) recordingID w = continuedPast e as rid w2"
        and p: "\<And>before. continuedPast e (a # before) recordingID w = continuedPast e before rid w2"
    proof -
      from Cons.IH [of rid w2] show ?thesis
      proof
        assume "\<exists>recordingID0 w0. continuedPast e as rid w2 = Some (recordingID0, w0)"
        with c show ?thesis by simp
      next
        assume "\<exists>before attachment rest recordingID0 w0 recordingID' w1 w2a fileSize.
          as = before @ attachment # rest \<and>
          continuedPast e before rid w2 = Some (recordingID0, w0) \<and>
          isMP3 attachment \<and>
          generateID e w0 = (recordingID', w1) \<and>
          saveAttachment e attachment (mp3Path recordingID') w1 = (None, w2a) \<and>
          Stat e (mp3Path recordingID') w2a = Inr fileSize"
        then obtain before attachment rest recordingID0 w0 recordingID' w1' w2a fileSize where
          h: "as = before @ attachment # rest"
          "continuedPast e before rid w2 = Some (recordingID0, w0)"
          "isMP3 attachment"
          "generateID e w0 = (recordingID', w1')"
          "saveAttachment e attachment (mp3Path recordingID') w1' = (None, w2a)"
          "Stat e (mp3Path recordingID') w2a = Inr fileSize"
          by blast
        have "a # as = (a # before) @ attachment # rest" using h(1) by simp
        moreover have "continuedPast e (a # before) recordingID w = Some (recordingID0, w0)"
          using p [of before] h(2) by simp
        ultimately show ?thesis using h(3-6) by blast
      qed
    qed
    show ?thesis
    proof (cases res)
      case (Some err)
      show ?thesis
        by (rule cont) (use True gen save Some in simp_all)
    next
      case None
      show ?thesis
      proof (cases "Stat e (mp3Path rid) w2")
        case (Inl err)
        show ?thesis
          by (rule cont) (use True gen save None Inl in simp_all)
      next
        case (Inr fileSize)
        from reached [OF None Inr] show ?thesis .
      qed
    qed
  qed
qed

lemma failed_transcription:
  assumes "Method r = ''POST''" and "Body r = Inr body"
    and "jsonUnmarshalEmail e (ReplaceAll nastyTimeRegex body '' '') = Inr email"
    and "extractPhoneNumber (Subject email) = Inr phone"
    and "Attachments email = before @ attachment # rest"
    and "continuedPast e before [] w = Some (recordingID0, w0)"
    and "isMP3 attachment"
    and "generateID e w0 = (recordingID, w1)"
    and "saveAttachment e attachment (mp3Path recordingID) w1 = (None, w2)"
    and "Stat e (mp3Path recordingID) w2 = Inr fileSize"
    and "transcribeAudio e (mp3Path recordingID) w2 = (Inl err, w3)"
    and "recording =
       \<lparr>ID = recordingID,
        PhoneNumber = (if phone = [] then ''Unknown'' else phone),
        Recording.ReceivedAt =
          (if EmailData.ReceivedAt email = [] then timeNowFormat e else EmailData.ReceivedAt email),
        MP3FileName = FileName attachment,
        FilePath = mp3Path recordingID,
        FileSize = fileSize,
        Transcription = ''Transcription failed: '' @ err,
        Title = ''Untitled Voicemail''\<rparr>"
  shows "webhookHandler e r w =
     (JsonResponse 201
        [(''status'', ''success''), (''message'', ''Recording data received''),
         (''id'', recordingID)], snd (insertRecording e recording w3))"
proof -
  let ?rec0 = "\<lparr>ID = recordingID,
        PhoneNumber = (if phone = [] then ''Unknown'' else phone),
        Recording.ReceivedAt =
          (if EmailData.ReceivedAt email = [] then timeNowFormat e else EmailData.ReceivedAt email),
        MP3FileName = FileName attachment,
        FilePath = mp3Path recordingID,
        FileSize = fileSize,
        Transcription = [], Title = []\<rparr>"
  have en: "enrich e ?rec0 w2 = (recording, w3)"
    using enrich_failed [of e ?rec0 w2 err w3] assms(11,12) by (simp add: Untitled_def)
  have loop: "processAttachments e (if phone = [] then ''Unknown'' else phone)
      (if EmailData.ReceivedAt email = [] then timeNowFormat e else EmailData.ReceivedAt email)
      (Attachments email) [] w = (recordingID, snd (insertRecording e recording w3))"
    unfolding assms(5) processAttachments_continued [OF assms(6)]
    using assms(7-10) en by (simp add: Let_def)
  show ?thesis
    using webhookHandler_parsed [OF assms(1-4), of w] loop by simp
qed

lemma saveAttachment_ok:
  assumes "osCreate e p = None" and "fileWrite e p X = None"
  shows "saveAttachment e \<lparr>FileName = n, Content = EncodeToString encodeStd X, MimeType = m\<rparr> p w =
     (None, w\<lparr>files := (files w)(p \<mapsto> X)\<rparr>)"
  using assms by (simp add: saveAttachment_def DecodeString_EncodeToString)

lemma stored_phone_number:
  assumes "Method r = ''POST''" and "Body r = Inr body"
    and "jsonUnmarshalEmail e (ReplaceAll nastyTimeRegex body '' '') = Inr email"
    and "extractPhoneNumber (Subject email) = Inr []"
  shows "rows (snd (webhookHandler e r w)) = rows w \<or>
     (\<exists>recording. rows (snd (webhookHandler e r w)) = rows w @ [recording] \<and>
        PhoneNumber recording = ''Unknown'')"
  using webhookHandler_parsed [OF assms, of w]
    processAttachments_rows [of e "''Unknown''"
      "if EmailData.ReceivedAt email = [] then timeNowFormat e else EmailData.ReceivedAt email"
      "Attachments email" "[]" w]
  by auto

section \<open>Facts about the replacement of the narrow no-break space\<close>

lemma HasPrefix_nastyTime:
  "HasPrefix s nastyTime \<longleftrightarrow> (\<exists>rest. s = CHR 0xE2 # CHR 0x80 # CHR 0xAF # rest)"
proof
  assume "HasPrefix s nastyTime"
  then have "take 3 s = [CHR 0xE2, CHR 0x80, CHR 0xAF]"
    by (simp add: HasPrefix_def nastyTime_def numeral_3_eq_3)
  then have "s = [CHR 0xE2, CHR 0x80, CHR 0xAF] @ drop 3 s"
    by (metis append_take_drop_id)
  then show "\<exists>rest. s = CHR 0xE2 # CHR 0x80 # CHR 0xAF # rest" by auto
next
  assume "\<exists>rest. s = CHR 0xE2 # CHR 0x80 # CHR 0xAF # rest"
  then show "HasPrefix s nastyTime" by (auto simp: HasPrefix_def nastyTime_def)
qed

lemma matchR_nastyTimeRegex:
  "matchR nastyTimeRegex (s, []) = (if HasPrefix s nastyTime then [(drop 3 s, [])] else [])"
proof (cases "HasPrefix s nastyTime")
  case True
  then obtain rest where "s = CHR 0xE2 # CHR 0x80 # CHR 0xAF # rest"
    by (auto simp: HasPrefix_nastyTime)
  then show ?thesis using True by (simp add: nastyTimeRegex_def)
next
  case False
  then have "\<not> (\<exists>rest. s = CHR 0xE2 # CHR 0x80 # CHR 0xAF # rest)"
    by (simp add: HasPrefix_nastyTime)
  then show ?thesis using False
    by (auto simp: nastyTimeRegex_def split: list.splits)
qed

lemma ReplaceAll_nasty_Nil: "ReplaceAll nastyTimeRegex [] repl = []"
  by (simp add: matchR_nastyTimeRegex HasPrefix_nastyTime)

lemma ReplaceAll_nasty_match:
  "ReplaceAll nastyTimeRegex (CHR 0xE2 # CHR 0x80 # CHR 0xAF # rest) repl =
     repl @ ReplaceAll nastyTimeRegex rest repl"
  by (simp add: matchR_nastyTimeRegex HasPrefix_nastyTime)

lemma ReplaceAll_nasty_copy:
  "\<not> HasPrefix (c # cs) nastyTime \<Longrightarrow>
   ReplaceAll nastyTimeRegex (c # cs) repl = c # ReplaceAll nastyTimeRegex cs repl"
  by (simp add: matchR_nastyTimeRegex)

declare ReplaceAll.simps [simp del]

declare ReplaceAll_nasty_Nil [simp]

declare ReplaceAll_nasty_match [simp]

lemma ReplaceAll_nasty_head:
  assumes "ReplaceAll nastyTimeRegex s '' '' = x # R" and "x \<noteq> CHR '' ''"
  shows "\<exists>s'. s = x # s' \<and> R = ReplaceAll nastyTimeRegex s' '' ''"
proof (cases s)
  case Nil
  with assms show ?thesis by simp
next
  case (Cons c cs)
  show ?thesis
  proof (cases "HasPrefix (c # cs) nastyTime")
    case True
    then obtain rest where "c # cs = CHR 0xE2 # CHR 0x80 # CHR 0xAF # rest"
      by (auto simp: HasPrefix_nastyTime)
    with assms Cons show ?thesis by simp
  next
    case False
    from ReplaceAll_nasty_copy [OF this] assms Cons show ?thesis by simp
  qed
qed

lemma ReplaceAll_nasty_no_prefix:
  "\<not> HasPrefix (ReplaceAll nastyTimeRegex s '' '') nastyTime"
proof
  assume "HasPrefix (ReplaceAll nastyTimeRegex s '' '') nastyTime"
  then obtain R where 1: "ReplaceAll nastyTimeRegex s '' '' = CHR 0xE2 # CHR 0x80 # CHR 0xAF # R"
    by (auto simp: HasPrefix_nastyTime)
  from ReplaceAll_nasty_head [OF 1] obtain s1 where
    2: "s = CHR 0xE2 # s1" "CHR 0x80 # CHR 0xAF # R = ReplaceAll nastyTimeRegex s1 '' ''"
    by auto
  from ReplaceAll_nasty_head [OF 2(2) [symmetric]] obtain s2 where
    3: "s1 = CHR 0x80 # s2" "CHR 0xAF # R = ReplaceAll nastyTimeRegex s2 '' ''"
    by auto
  from ReplaceAll_nasty_head [OF 3(2) [symmetric]] obtain s3 where
    4: "s2 = CHR 0xAF # s3" "R = ReplaceAll nastyTimeRegex s3 '' ''"
    by auto
  from 1 2 3 4 show False by simp
qed

lemma ReplaceAll_nasty_free:
  "\<not> Contains (ReplaceAll nastyTimeRegex s '' '') nastyTime"
proof (induction s rule: length_induct)
  case (1 s)
  show ?case
  proof (cases s)
    case Nil
    then show ?thesis by (simp add: nastyTime_def)
  next
    case (Cons c cs)
    show ?thesis
    proof (cases "HasPrefix (c # cs) nastyTime")
      case True
      then obtain rest where r: "c # cs = CHR 0xE2 # CHR 0x80 # CHR 0xAF # rest"
        by (auto simp: HasPrefix_nastyTime)
      then have "length rest < length s" using Cons by simp
      with 1 have "\<not> Contains (ReplaceAll nastyTimeRegex rest '' '') nastyTime" by blast
      then show ?thesis using Cons r by (simp add: HasPrefix_nastyTime)
    next
      case False
      have "length cs < length s" using Cons by simp
      with 1 have "\<not> Contains (ReplaceAll nastyTimeRegex cs '' '') nastyTime" by blast
      moreover have "\<not> HasPrefix (ReplaceAll nastyTimeRegex (c # cs) '' '') nastyTime"
        by (rule ReplaceAll_nasty_no_prefix)
      ultimately show ?thesis using Cons ReplaceAll_nasty_copy [OF False, of "'' ''"] by simp
    qed
  qed
qed

lemma ReplaceAll_nasty_id:
  "\<not> Contains s nastyTime \<Longrightarrow> ReplaceAll nastyTimeRegex s repl = s"
proof (induction s)
  case Nil
  show ?case by simp
next
  case (Cons c cs)
  then show ?case by (simp add: ReplaceAll_nasty_copy)
qed

lemma ReplaceAll_nasty_idem:
  "ReplaceAll nastyTimeRegex (ReplaceAll nastyTimeRegex s '' '') '' '' =
   ReplaceAll nastyTimeRegex s '' ''"
  by (rule ReplaceAll_nasty_id) (rule ReplaceAll_nasty_free)

lemma ReplaceAll_nasty_append:
  "ReplaceAll nastyTimeRegex (before @ nastyTime @ rest) repl =
   ReplaceAll nastyTimeRegex before repl @ repl @ ReplaceAll nastyTimeRegex rest repl"
proof (induction before rule: length_induct)
  case (1 before)
  show ?case
  proof (cases before)
    case Nil
    then show ?thesis by (simp add: nastyTime_def)
  next
    case (Cons c cs)
    show ?thesis
    proof (cases "HasPrefix (c # cs) nastyTime")
      case True
      then obtain tl3 where r: "c # cs = CHR 0xE2 # CHR 0x80 # CHR 0xAF # tl3"
        by (auto simp: HasPrefix_nastyTime)
      then have "length tl3 < length before" using Cons by simp
      with 1 have "ReplaceAll nastyTimeRegex (tl3 @ nastyTime @ rest) repl =
          ReplaceAll nastyTimeRegex tl3 repl @ repl @ ReplaceAll nastyTimeRegex rest repl"
        by blast
      then show ?thesis using Cons r by simp
    next
      case False
      have n: "\<not> HasPrefix (c # cs @ nastyTime @ rest) nastyTime"
      proof
        assume "HasPrefix (c # cs @ nastyTime @ rest) nastyTime"
        then obtain t where t: "c # cs @ nastyTime @ rest = CHR 0xE2 # CHR 0x80 # CHR 0xAF # t"
          by (auto simp: HasPrefix_nastyTime)
        show False
        proof (cases cs)
          case Nil
          with t show False by (simp add: nastyTime_def)
        next
          case (Cons d ds)
          note cs = this
          show False
          proof (cases ds)
            case Nil
            with t cs show False by (simp add: nastyTime_def)
          next
            case (Cons f fs)
            with t cs have "c # cs = CHR 0xE2 # CHR 0x80 # CHR 0xAF # fs" by simp
            with False show False by (simp add: HasPrefix_nastyTime)
          qed
        qed
      qed
      have "length cs < length before" using Cons by simp
      with 1 have "ReplaceAll nastyTimeRegex (cs @ nastyTime @ rest) repl =
          ReplaceAll nastyTimeRegex cs repl @ repl @ ReplaceAll nastyTimeRegex rest repl"
        by blast
      with ReplaceAll_nasty_copy [OF False, of repl] ReplaceAll_nasty_copy [OF n, of repl] Cons
      show ?thesis by simp
    qed
  qed
qed

lemma webhookHandler_normalized:
  "webhookHandler e (r\<lparr>Body := Inr body\<rparr>) w =
   webhookHandler e (r\<lparr>Body := Inr (ReplaceAll nastyTimeRegex body '' '')\<rparr>) w"
  by (simp add: webhookHandler_def ReplaceAll_nasty_idem)

section \<open>Facts about the concrete environment\<close>

lemma replicate_16: "replicate 16 x = [x,x,x,x,x,x,x,x,x,x,x,x,x,x,x,x]"
  by (simp add: numeral_eq_Suc)

lemma zero_bytes_generateID:
  assumes "randRead e (randCalls w) = Inr (replicate 16 (CHR 0x00))"
  shows "generateID e w = (''AAAAAAAAAAAAAAAAAAAAAA=='', snd (generateID e w))"
proof -
  have "fst (generateID e w) = ''AAAAAAAAAAAAAAAAAAAAAA==''"
    unfolding generateID_def assms by (simp add: replicate_16 encodeURL_def padChar_def Let_def)
  then show ?thesis by (metis prod.collapse)
qed

lemma exampleEnv_generateID:
  "generateID (exampleEnv email content) w =
     (''AAAAAAAAAAAAAAAAAAAAAA=='', snd (generateID (exampleEnv email content) w))"
  by (rule zero_bytes_generateID) (simp add: exampleEnv_def)

lemma DecodeString_bad: "DecodeString encodeStd ''!!!'' = Inl ''illegal base64 data at input byte 0''"
  by (simp add: DecodeString_def encodeStd_def isNewline_def padChar_def CorruptInputError_def
      Itoa_def digits.simps digit_def)

lemma exampleRequest_parsed:
  "Method exampleRequest = ''POST''"
  "Body exampleRequest = Inr ''{}''"
  "jsonUnmarshalEmail (exampleEnv email content) (ReplaceAll nastyTimeRegex ''{}'' '' '') = Inr email"
  by (simp_all add: exampleRequest_def exampleEnv_def)

lemma isMP3_example: "isMP3 \<lparr>FileName = ''msg.MP3'', Content = c, MimeType = m\<rparr>"
proof -
  have "HasSuffix (ToLower ''msg.MP3'') ''.mp3''" by code_simp
  then show ?thesis by (simp add: isMP3_def)
qed

lemma example_bad_save:
  "saveAttachment e \<lparr>FileName = ''msg.MP3'', Content = ''!!!'', MimeType = ''audio/mpeg''\<rparr> p w =
      (Some ''base64 decode error: illegal base64 data at input byte 0'', w)"
  by (simp add: saveAttachment_def DecodeString_bad)

lemma isMP3_helloEmail:
  "Attachments helloEmail =
     [] @ \<lparr>FileName = ''msg.MP3'', Content = EncodeToString encodeStd ''hello'',
             MimeType = ''audio/mpeg''\<rparr> # []"
  by (simp add: helloEmail_def exampleEmail_def)

lemma noWhisperEnv_parsed:
  "jsonUnmarshalEmail noWhisperEnv (ReplaceAll nastyTimeRegex ''{}'' '' '') = Inr helloEmail"
  by (simp add: noWhisperEnv_def exampleEnv_def)

lemma helloEmail_no_match: "FindStringSubmatch phoneRegex (Subject helloEmail) = []"
proof -
  have "FindStringSubmatch phoneRegex ''hello'' = []" by code_simp
  then show ?thesis by (simp add: helloEmail_def exampleEmail_def)
qed

lemma helloEmail_phone: "extractPhoneNumber (Subject helloEmail) = Inr []"
  using helloEmail_no_match by (rule extractPhoneNumber_no_match)

lemma noWhisperEnv_generateID:
  "generateID noWhisperEnv exampleWorld =
     (''AAAAAAAAAAAAAAAAAAAAAA=='', snd (generateID noWhisperEnv exampleWorld))"
  by (rule zero_bytes_generateID) (simp add: noWhisperEnv_def exampleEnv_def)

lemma noWhisperEnv_saveAttachment:
  "saveAttachment noWhisperEnv
     \<lparr>FileName = ''msg.MP3'', Content = EncodeToString encodeStd ''hello'',
        MimeType = ''audio/mpeg''\<rparr>
     p w = (None, w\<lparr>files := (files w)(p \<mapsto> ''hello'')\<rparr>)"
  by (rule saveAttachment_ok) (simp_all add: noWhisperEnv_def exampleEnv_def)

lemma noWhisperEnv_Stat:
  "Stat noWhisperEnv p (w\<lparr>files := (files w)(p \<mapsto> ''hello'')\<rparr>) = Inr 5"
  by (simp add: Stat_def noWhisperEnv_def exampleEnv_def)

lemma noWhisperEnv_transcribeAudio:
  "transcribeAudio noWhisperEnv p w =
     (Inl ''whisper.cpp not found in PATH: file does not exist'', w)"
  by (simp add: transcribeAudio_def noWhisperEnv_def exampleEnv_def)

lemma noWhisperEnv_rows:
  "rows (snd (webhookHandler noWhisperEnv exampleRequest exampleWorld)) =
     [\<lparr>ID = ''AAAAAAAAAAAAAAAAAAAAAA=='', PhoneNumber = ''Unknown'',
       Recording.ReceivedAt = ''Saturday, March 1, 2025 at 12:00:00 PM'',
       MP3FileName = ''msg.MP3'', FilePath = ''data/mp3s/AAAAAAAAAAAAAAAAAAAAAA==.mp3'',
       FileSize = 5,
       Transcription =
         ''Transcription failed: whisper.cpp not found in PATH: file does not exist'',
       Title = ''Untitled Voicemail''\<rparr>]"
proof -
  have 6: "continuedPast noWhisperEnv [] [] exampleWorld = Some ([], exampleWorld)" by simp
  note run = failed_transcription
    [OF exampleRequest_parsed(1,2) noWhisperEnv_parsed helloEmail_phone isMP3_helloEmail 6
      isMP3_example noWhisperEnv_generateID noWhisperEnv_saveAttachment noWhisperEnv_Stat
      noWhisperEnv_transcribeAudio refl]
  have db: "dbExec noWhisperEnv = (\<lambda>recording. None)"
    by (simp add: noWhisperEnv_def exampleEnv_def)
  have rw: "rows exampleWorld = []"
    by (simp add: exampleWorld_def)
  have ra: "EmailData.ReceivedAt helloEmail = ''Saturday, March 1, 2025 at 12:00:00 PM''"
    by (simp add: helloEmail_def exampleEmail_def)
  have mp: "mp3Path ''AAAAAAAAAAAAAAAAAAAAAA=='' = ''data/mp3s/AAAAAAAAAAAAAAAAAAAAAA==.mp3''"
    by (simp add: mp3Path_def attachmentDir_def)
  have "rows (snd (generateID noWhisperEnv exampleWorld)) = []"
    by (simp add: generateID_world rw)
  then show ?thesis
    unfolding run by (simp add: insertRecording_rows db ra mp)
qed

lemma retryEmail_attachments:
  "Attachments retryEmail =
     [\<lparr>FileName = ''a.mp3'', Content = ''!!!'', MimeType = ''audio/mpeg''\<rparr>] @
     \<lparr>FileName = ''msg.MP3'', Content = EncodeToString encodeStd ''hello'',
        MimeType = ''audio/mpeg''\<rparr> # []"
  by (simp add: retryEmail_def helloEmail_def exampleEmail_def del: EncodeToString.simps)

lemma retryEnv_parsed:
  "jsonUnmarshalEmail retryEnv (ReplaceAll nastyTimeRegex ''{}'' '' '') = Inr retryEmail"
  by (simp add: retryEnv_def)

lemma retryEmail_phone: "extractPhoneNumber (Subject retryEmail) = Inr []"
  using helloEmail_phone by (simp add: retryEmail_def)

lemma retryEnv_generateID:
  "generateID retryEnv w = (''AAAAAAAAAAAAAAAAAAAAAA=='', snd (generateID retryEnv w))"
  by (rule zero_bytes_generateID) (simp add: retryEnv_def noWhisperEnv_def exampleEnv_def)

lemma retryEnv_continuedPast:
  "continuedPast retryEnv
     [\<lparr>FileName = ''a.mp3'', Content = ''!!!'', MimeType = ''audio/mpeg''\<rparr>] [] exampleWorld =
   Some (''AAAAAAAAAAAAAAAAAAAAAA=='', snd (generateID retryEnv exampleWorld))"
proof -
  define w1 where "w1 = snd (generateID retryEnv exampleWorld)"
  have "HasSuffix (ToLower ''a.mp3'') ''.mp3''" by code_simp
  then have mp3: "isMP3 \<lparr>FileName = ''a.mp3'', Content = ''!!!'', MimeType = ''audio/mpeg''\<rparr>"
    by (simp add: isMP3_def)
  have gen: "generateID retryEnv exampleWorld = (''AAAAAAAAAAAAAAAAAAAAAA=='', w1)"
    unfolding w1_def by (rule retryEnv_generateID)
  have save: "saveAttachment retryEnv
      \<lparr>FileName = ''a.mp3'', Content = ''!!!'', MimeType = ''audio/mpeg''\<rparr>
      (mp3Path ''AAAAAAAAAAAAAAAAAAAAAA=='') w1 =
    (Some ''base64 decode error: illegal base64 data at input byte 0'', w1)"
    by (simp add: saveAttachment_def DecodeString_bad)
  have "continuedPast retryEnv
     [\<lparr>FileName = ''a.mp3'', Content = ''!!!'', MimeType = ''audio/mpeg''\<rparr>] [] exampleWorld =
   Some (''AAAAAAAAAAAAAAAAAAAAAA=='', w1)"
    using mp3 gen save by simp
  then show ?thesis by (simp add: w1_def)
qed

lemma retryEnv_saveAttachment:
  "saveAttachment retryEnv
     \<lparr>FileName = ''msg.MP3'', Content = EncodeToString encodeStd ''hello'',
        MimeType = ''audio/mpeg''\<rparr>
     p w = (None, w\<lparr>files := (files w)(p \<mapsto> ''hello'')\<rparr>)"
  by (rule saveAttachment_ok) (simp_all add: retryEnv_def noWhisperEnv_def exampleEnv_def)

lemma retryEnv_Stat:
  "Stat retryEnv p (w\<lparr>files := (files w)(p \<mapsto> ''hello'')\<rparr>) = Inr 5"
  by (simp add: Stat_def retryEnv_def noWhisperEnv_def exampleEnv_def)

lemma retryEnv_transcribeAudio:
  "transcribeAudio retryEnv p w =
     (Inl ''whisper.cpp not found in PATH: file does not exist'', w)"
  by (simp add: transcribeAudio_def retryEnv_def noWhisperEnv_def exampleEnv_def)




section \<open>The decoder on the body of the mail client\<close>

lemma plainByte_facts:
  "plainByte c \<Longrightarrow> c \<noteq> CHR 0x22 \<and> c \<noteq> CHR 0x5C \<and> c \<noteq> CHR 0x0D \<and> c \<noteq> CHR 0x09 \<and> c \<noteq> CHR 0xE2 \<and>
     \<not> (of_char c :: nat) < 0x20 \<and> (of_char c :: nat) < 0x80"
  by (auto simp: plainByte_def)

lemma plainByte_space: "plainByte (CHR '' '')"
  by (simp add: plainByte_def)

lemma escapeJSON_Cons:
  "escapeJSON (c # cs) =
     (if c = CHR 0x22 then [CHR 0x5C, CHR 0x22]
      else if c = CHR 0x0D then [CHR 0x5C, CHR ''n'']
      else if c = CHR 0x09 then [CHR 0x5C, CHR ''t'']
      else [c]) @ escapeJSON cs"
  by (simp add: escapeJSON_def replaceText_def)

lemma escapeJSON_plain: "list_all plainByte s \<Longrightarrow> escapeJSON s = s"
proof (induction s)
  case Nil
  show ?case by (simp add: escapeJSON_def replaceText_def)
next
  case (Cons c cs)
  then show ?case using plainByte_facts [of c] by (simp add: escapeJSON_Cons)
qed

lemma escapeJSON_plainText: "plainText s \<Longrightarrow> escapeJSON s = s"
proof (induction s rule: plainText.induct)
  case 1
  show ?case by (simp add: escapeJSON_def replaceText_def)
next
  case (2 c cs)
  show ?case
  proof (cases "plainByte c")
    case True
    with 2 show ?thesis using plainByte_facts [of c] by (simp add: escapeJSON_Cons)
  next
    case False
    with "2.prems" have p: "HasPrefix (c # cs) nastyTime" and t: "plainText (drop 2 cs)" by simp_all
    from p obtain rest where r: "c # cs = CHR 0xE2 # CHR 0x80 # CHR 0xAF # rest"
      by (auto simp: HasPrefix_nastyTime)
    with False t "2.IH"(2) have "escapeJSON rest = rest" by simp
    with r show ?thesis by (simp add: escapeJSON_Cons)
  qed
qed

lemma spaced_plainText_append:
  "plainText s \<Longrightarrow>
   ReplaceAll nastyTimeRegex (s @ rest) '' '' = spaced s @ ReplaceAll nastyTimeRegex rest '' ''"
proof (induction s rule: plainText.induct)
  case 1
  show ?case by (simp add: spaced_def)
next
  case (2 c cs)
  show ?case
  proof (cases "plainByte c")
    case True
    then have "c \<noteq> CHR 0xE2" using plainByte_facts [of c] by simp
    then have "\<not> HasPrefix (c # cs @ rest) nastyTime" "\<not> HasPrefix (c # cs) nastyTime"
      by (auto simp: HasPrefix_nastyTime)
    with True 2 show ?thesis by (simp add: spaced_def ReplaceAll_nasty_copy)
  next
    case False
    with "2.prems" have p: "HasPrefix (c # cs) nastyTime" and t: "plainText (drop 2 cs)" by simp_all
    from p obtain s' where r: "c # cs = CHR 0xE2 # CHR 0x80 # CHR 0xAF # s'"
      by (auto simp: HasPrefix_nastyTime)
    with False t "2.IH"(2) have
      "ReplaceAll nastyTimeRegex (s' @ rest) '' '' = spaced s' @ ReplaceAll nastyTimeRegex rest '' ''"
      by simp
    with r show ?thesis by (simp add: spaced_def ReplaceAll_nasty_match)
  qed
qed

lemma spaced_plain: "plainText s \<Longrightarrow> list_all plainByte (spaced s)"
proof (induction s rule: plainText.induct)
  case 1
  show ?case by (simp add: spaced_def)
next
  case (2 c cs)
  show ?case
  proof (cases "plainByte c")
    case True
    then have "c \<noteq> CHR 0xE2" using plainByte_facts [of c] by simp
    then have "\<not> HasPrefix (c # cs) nastyTime"
      by (auto simp: HasPrefix_nastyTime)
    with True 2 show ?thesis by (simp add: spaced_def ReplaceAll_nasty_copy)
  next
    case False
    with "2.prems" have p: "HasPrefix (c # cs) nastyTime" and t: "plainText (drop 2 cs)" by simp_all
    from p obtain s' where r: "c # cs = CHR 0xE2 # CHR 0x80 # CHR 0xAF # s'"
      by (auto simp: HasPrefix_nastyTime)
    with False t "2.IH"(2) have "list_all plainByte (spaced s')" by simp
    with r show ?thesis by (simp add: spaced_def ReplaceAll_nasty_match plainByte_space)
  qed
qed

lemma ReplaceAll_nasty_skip:
  "CHR 0xE2 \<notin> set p \<Longrightarrow>
   ReplaceAll nastyTimeRegex (p @ s) repl = p @ ReplaceAll nastyTimeRegex s repl"
proof (induction p)
  case Nil
  show ?case by simp
next
  case (Cons c cs)
  then have "\<not> HasPrefix (c # cs @ s) nastyTime" by (auto simp: HasPrefix_nastyTime)
  with Cons show ?case by (simp add: ReplaceAll_nasty_copy)
qed

lemma ReplaceAll_nasty_quoted:
  "plainText s \<Longrightarrow>
   ReplaceAll nastyTimeRegex (quoted s @ rest) '' '' =
     quoted (spaced s) @ ReplaceAll nastyTimeRegex rest '' ''"
  using ReplaceAll_nasty_skip [where p = "[CHR 0x22]" and s = "s @ CHR 0x22 # rest" and repl = "'' ''"]
    ReplaceAll_nasty_skip [where p = "[CHR 0x22]" and s = rest and repl = "'' ''"]
    spaced_plainText_append [where s = s and rest = "CHR 0x22 # rest"]
  by (simp add: quoted_def)

lemma stringEnd_plain:
  "list_all plainByte s \<Longrightarrow> stringEnd (s @ CHR 0x22 # rest) = Some (length s)"
proof (induction s)
  case Nil
  show ?case by simp
next
  case (Cons c cs)
  then show ?case using plainByte_facts [of c] by simp
qed

lemma unquote_plain: "list_all plainByte s \<Longrightarrow> unquote s acc = Some (acc @ s)"
proof (induction s arbitrary: acc)
  case Nil
  show ?case by simp
next
  case (Cons c cs)
  then show ?case using plainByte_facts [of c] by simp
qed

lemma lexer_quoted:
  assumes "list_all plainByte s"
  shows "lexer (quoted s @ rest) = map_option ((#) (TString s)) (lexer rest)"
  using stringEnd_plain [OF assms, of rest] unquote_plain [OF assms, of "[]"]
  by (simp add: quoted_def jsonSpace_def)

lemma lexer_space: "set trailer \<subseteq> set jsonSpace \<Longrightarrow> lexer trailer = Some []"
  by (induction trailer) simp_all

lemma plain_keys:
  "list_all plainByte ''subject''" "list_all plainByte ''sender''"
  "list_all plainByte ''receivedAt''" "list_all plainByte ''attachments''"
  "list_all plainByte ''fileName''" "list_all plainByte ''content''"
  "list_all plainByte ''mimeType''" "list_all plainByte ''audio/mpeg''"
  by (simp_all add: plainByte_def)

lemma lexer_punct:
  "lexer (CHR ''{'' # s) = map_option ((#) TLBrace) (lexer s)"
  "lexer (CHR ''}'' # s) = map_option ((#) TRBrace) (lexer s)"
  "lexer (CHR ''['' # s) = map_option ((#) TLBrack) (lexer s)"
  "lexer (CHR '']'' # s) = map_option ((#) TRBrack) (lexer s)"
  "lexer (CHR '':'' # s) = map_option ((#) TColon) (lexer s)"
  "lexer (CHR '','' # s) = map_option ((#) TComma) (lexer s)"
  "lexer (CHR '' '' # s) = lexer s"
  by (simp_all add: jsonSpace_def)

lemma lexer_attachmentsJSON:
  assumes "list_all (\<lambda>(f, c). list_all plainByte f \<and> list_all plainByte c) atts"
  shows "lexer (attachmentsJSON atts first @ rest) =
     map_option
       ((@) (drop (if first then 1 else 0)
          (concat (map (\<lambda>(f, c).
             [TComma, TLBrace, TString ''fileName'', TColon, TString f, TComma,
              TString ''content'', TColon, TString c, TComma,
              TString ''mimeType'', TColon, TString ''audio/mpeg'', TRBrace]) atts))))
       (lexer rest)"
  using assms
proof (induction atts arbitrary: first)
  case Nil
  show ?case by (simp add: option.map_ident)
next
  case (Cons a atts)
  obtain f c where a: "a = (f, c)" by (cases a)
  with Cons.prems have p: "list_all plainByte f" "list_all plainByte c"
    and q: "list_all (\<lambda>(f, c). list_all plainByte f \<and> list_all plainByte c) atts"
    by simp_all
  note IH = Cons.IH [OF q, of False]
  show ?case
    by (simp add: a escapeJSON_plain p lexer_punct plain_keys [THEN lexer_quoted]
        p [THEN lexer_quoted] IH option.map_comp comp_def del: lexer.simps)
qed

lemma lexer_jsonData:
  assumes "list_all plainByte subject" and "list_all plainByte sender" and "list_all plainByte date"
    and "list_all (\<lambda>(f, c). list_all plainByte f \<and> list_all plainByte c) atts"
    and "set trailer \<subseteq> set jsonSpace"
  shows "lexer (jsonData subject sender date atts @ trailer) =
     Some ([TLBrace, TString ''subject'', TColon, TString subject, TComma,
            TString ''sender'', TColon, TString sender, TComma,
            TString ''receivedAt'', TColon, TString date, TComma,
            TString ''attachments'', TColon, TLBrack] @
           drop 1 (concat (map (\<lambda>(f, c).
             [TComma, TLBrace, TString ''fileName'', TColon, TString f, TComma,
              TString ''content'', TColon, TString c, TComma,
              TString ''mimeType'', TColon, TString ''audio/mpeg'', TRBrace]) atts)) @
           [TRBrack, TRBrace])"
  using lexer_attachmentsJSON [OF assms(4), of True "'']}'' @ trailer"]
  by (simp add: jsonData_def escapeJSON_plain assms(1-3) lexer_punct plain_keys [THEN lexer_quoted]
        assms(1-3) [THEN lexer_quoted] lexer_space [OF assms(5)] del: lexer.simps)

lemma parseAll_append:
  "parseAll (xs @ ys) state =
     (case parseAll xs state of None \<Rightarrow> None | Some state' \<Rightarrow> parseAll ys state')"
  by (induction xs arbitrary: state) (simp_all split: option.splits)

lemma parseAll_attachment:
  "m = BeginValue \<or> m = BeginValueOrEmpty \<Longrightarrow>
   parseAll [TLBrace, TString ''fileName'', TColon, TString f, TComma,
             TString ''content'', TColon, TString c, TComma,
             TString ''mimeType'', TColon, TString ''audio/mpeg'', TRBrace]
     (InArray elems # [InObject members key], m, None) =
   Some (InArray (elems @ [JObject [(''fileName'', JString f), (''content'', JString c),
                                    (''mimeType'', JString ''audio/mpeg'')]]) #
         [InObject members key], EndValue, None)"
  by (auto simp: parseStep_def maxNestingDepth_def)

lemma parseAll_more_attachments:
  "parseAll (concat (map (\<lambda>(f, c).
      [TComma, TLBrace, TString ''fileName'', TColon, TString f, TComma,
       TString ''content'', TColon, TString c, TComma,
       TString ''mimeType'', TColon, TString ''audio/mpeg'', TRBrace]) atts))
     (InArray elems # [InObject members key], EndValue, None) =
   Some (InArray (elems @ map (\<lambda>(f, c). JObject [(''fileName'', JString f), (''content'', JString c),
                                    (''mimeType'', JString ''audio/mpeg'')]) atts) #
         [InObject members key], EndValue, None)"
proof (induction atts arbitrary: elems)
  case Nil
  show ?case by simp
next
  case (Cons a atts)
  obtain f c where a: "a = (f, c)" by (cases a)
  have 1: "parseStep TComma (InArray elems # [InObject members key], EndValue, None) =
      Some (InArray elems # [InObject members key], BeginValue, None)"
    by (simp add: parseStep_def)
  let ?T = "\<lambda>(f, c).
      [TComma, TLBrace, TString ''fileName'', TColon, TString f, TComma,
       TString ''content'', TColon, TString c, TComma,
       TString ''mimeType'', TColon, TString ''audio/mpeg'', TRBrace]"
  let ?obj = "[TLBrace, TString ''fileName'', TColon, TString f, TComma,
       TString ''content'', TColon, TString c, TComma,
       TString ''mimeType'', TColon, TString ''audio/mpeg'', TRBrace]"
  have 2: "concat (map ?T (a # atts)) = TComma # (?obj @ concat (map ?T atts))"
    by (simp add: a)
  have "parseAll (concat (map ?T (a # atts))) (InArray elems # [InObject members key], EndValue, None) =
      parseAll (?obj @ concat (map ?T atts)) (InArray elems # [InObject members key], BeginValue, None)"
    unfolding 2 by (simp add: 1)
  also have "\<dots> = parseAll (concat (map ?T atts))
      (InArray (elems @ [JObject [(''fileName'', JString f), (''content'', JString c),
                                    (''mimeType'', JString ''audio/mpeg'')]]) #
         [InObject members key], EndValue, None)"
    unfolding parseAll_append
    using parseAll_attachment [of BeginValue f c elems members key] by simp
  finally show ?case
    using Cons.IH [of "elems @ [JObject [(''fileName'', JString f), (''content'', JString c),
                                    (''mimeType'', JString ''audio/mpeg'')]]"]
    by (simp add: a)
qed

lemma parseAll_attachments:
  "parseAll (drop 1 (concat (map (\<lambda>(f, c).
      [TComma, TLBrace, TString ''fileName'', TColon, TString f, TComma,
       TString ''content'', TColon, TString c, TComma,
       TString ''mimeType'', TColon, TString ''audio/mpeg'', TRBrace]) atts)) @ [TRBrack])
     (InArray [] # [InObject members key], BeginValueOrEmpty, None) =
   Some ([InObject (members @ [(key, JArray (map (\<lambda>(f, c). JObject [(''fileName'', JString f),
            (''content'', JString c), (''mimeType'', JString ''audio/mpeg'')]) atts))]) key],
         EndValue, None)"
proof (cases atts)
  case Nil
  then show ?thesis by (simp add: parseStep_def)
next
  case (Cons a rest)
  obtain f c where a: "a = (f, c)" by (cases a)
  let ?T = "\<lambda>(f, c).
      [TComma, TLBrace, TString ''fileName'', TColon, TString f, TComma,
       TString ''content'', TColon, TString c, TComma,
       TString ''mimeType'', TColon, TString ''audio/mpeg'', TRBrace]"
  let ?obj = "[TLBrace, TString ''fileName'', TColon, TString f, TComma,
       TString ''content'', TColon, TString c, TComma,
       TString ''mimeType'', TColon, TString ''audio/mpeg'', TRBrace]"
  let ?J = "\<lambda>(f, c). JObject [(''fileName'', JString f),
            (''content'', JString c), (''mimeType'', JString ''audio/mpeg'')]"
  have 1: "drop 1 (concat (map ?T atts)) @ [TRBrack] = ?obj @ (concat (map ?T rest) @ [TRBrack])"
    by (simp add: Cons a)
  have 2: "parseStep TRBrack (InArray (map ?J atts) # [InObject members key], EndValue, None) =
      Some ([InObject (members @ [(key, JArray (map ?J atts))]) key], EndValue, None)"
    by (simp add: parseStep_def)
  have "parseAll (drop 1 (concat (map ?T atts)) @ [TRBrack])
      (InArray [] # [InObject members key], BeginValueOrEmpty, None) =
    parseAll (concat (map ?T rest) @ [TRBrack])
      (InArray [?J (f, c)] # [InObject members key], EndValue, None)"
    unfolding 1 parseAll_append [of ?obj]
    using parseAll_attachment [of BeginValueOrEmpty f c "[]" members key] by simp
  also have "\<dots> = parseAll [TRBrack] (InArray (map ?J atts) # [InObject members key], EndValue, None)"
    unfolding parseAll_append
    using parseAll_more_attachments [of rest "[?J (f, c)]" members key]
    by (simp add: Cons a)
  finally show ?thesis by (simp add: 2)
qed

lemma parseAll_jsonData:
  "parseAll ([TLBrace, TString ''subject'', TColon, TString subject, TComma,
            TString ''sender'', TColon, TString sender, TComma,
            TString ''receivedAt'', TColon, TString date, TComma,
            TString ''attachments'', TColon, TLBrack] @
           drop 1 (concat (map (\<lambda>(f, c).
             [TComma, TLBrace, TString ''fileName'', TColon, TString f, TComma,
              TString ''content'', TColon, TString c, TComma,
              TString ''mimeType'', TColon, TString ''audio/mpeg'', TRBrace]) atts)) @
           [TRBrack, TRBrace]) ([], BeginValue, None) =
   Some ([], EndTop,
     Some (JObject [(''subject'', JString subject), (''sender'', JString sender),
        (''receivedAt'', JString date),
        (''attachments'', JArray (map (\<lambda>(f, c). JObject [(''fileName'', JString f),
            (''content'', JString c), (''mimeType'', JString ''audio/mpeg'')]) atts))]))"
proof -
  let ?T = "\<lambda>(f, c).
      [TComma, TLBrace, TString ''fileName'', TColon, TString f, TComma,
       TString ''content'', TColon, TString c, TComma,
       TString ''mimeType'', TColon, TString ''audio/mpeg'', TRBrace]"
  let ?hdr = "[TLBrace, TString ''subject'', TColon, TString subject, TComma,
            TString ''sender'', TColon, TString sender, TComma,
            TString ''receivedAt'', TColon, TString date, TComma,
            TString ''attachments'', TColon, TLBrack]"
  let ?members = "[(''subject'', JString subject), (''sender'', JString sender),
        (''receivedAt'', JString date)]"
  have 1: "parseAll ?hdr ([], BeginValue, None) =
      Some (InArray [] # [InObject ?members ''attachments''], BeginValueOrEmpty, None)"
    by (simp add: parseStep_def maxNestingDepth_def)
  have 2: "?hdr @ drop 1 (concat (map ?T atts)) @ [TRBrack, TRBrace] =
      ?hdr @ ((drop 1 (concat (map ?T atts)) @ [TRBrack]) @ [TRBrace])"
    by simp
  have 3: "parseAll (drop 1 (concat (map ?T atts)) @ [TRBrack])
      (InArray [] # [InObject ?members ''attachments''], BeginValueOrEmpty, None) =
    Some ([InObject (?members @ [(''attachments'', JArray (map (\<lambda>(f, c). JObject [(''fileName'', JString f),
            (''content'', JString c), (''mimeType'', JString ''audio/mpeg'')]) atts))]) ''attachments''],
         EndValue, None)"
    by (rule parseAll_attachments)
  have "parseAll (?hdr @ ((drop 1 (concat (map ?T atts)) @ [TRBrack]) @ [TRBrace])) ([], BeginValue, None) =
     parseAll ((drop 1 (concat (map ?T atts)) @ [TRBrack]) @ [TRBrace])
       (InArray [] # [InObject ?members ''attachments''], BeginValueOrEmpty, None)"
    by (simp only: parseAll_append [of ?hdr] 1 option.case)
  also have "\<dots> = parseAll [TRBrace]
      ([InObject (?members @ [(''attachments'', JArray (map (\<lambda>(f, c). JObject [(''fileName'', JString f),
            (''content'', JString c), (''mimeType'', JString ''audio/mpeg'')]) atts))]) ''attachments''],
         EndValue, None)"
    by (simp only: parseAll_append [of "drop 1 (concat (map ?T atts)) @ [TRBrack]"] 3 option.case)
  also have "\<dots> = Some ([], EndTop,
     Some (JObject [(''subject'', JString subject), (''sender'', JString sender),
        (''receivedAt'', JString date),
        (''attachments'', JArray (map (\<lambda>(f, c). JObject [(''fileName'', JString f),
            (''content'', JString c), (''mimeType'', JString ''audio/mpeg'')]) atts))]))"
    by (simp add: parseStep_def)
  finally show ?thesis unfolding 2 .
qed

lemma parseJSON_jsonData:
  assumes "list_all plainByte subject" and "list_all plainByte sender" and "list_all plainByte date"
    and "list_all (\<lambda>(f, c). list_all plainByte f \<and> list_all plainByte c) atts"
    and "set trailer \<subseteq> set jsonSpace"
  shows "parseJSON (jsonData subject sender date atts @ trailer) =
     Some (JObject [(''subject'', JString subject), (''sender'', JString sender),
        (''receivedAt'', JString date),
        (''attachments'', JArray (map (\<lambda>(f, c). JObject [(''fileName'', JString f),
            (''content'', JString c), (''mimeType'', JString ''audio/mpeg'')]) atts))])"
  by (simp only: parseJSON_def lexer_jsonData [OF assms] parseAll_jsonData
      option.case list.case prod.case mode.case)

lemma EqualFold_keys:
  "EqualFold ''subject'' ''subject''"
  "\<not> EqualFold ''sender'' ''subject''" "EqualFold ''sender'' ''sender''"
  "\<not> EqualFold ''receivedAt'' ''subject''" "\<not> EqualFold ''receivedAt'' ''sender''"
  "EqualFold ''receivedAt'' ''receivedAt''"
  "\<not> EqualFold ''attachments'' ''subject''" "\<not> EqualFold ''attachments'' ''sender''"
  "\<not> EqualFold ''attachments'' ''receivedAt''" "EqualFold ''attachments'' ''attachments''"
  "EqualFold ''fileName'' ''fileName''"
  "\<not> EqualFold ''content'' ''fileName''" "EqualFold ''content'' ''content''"
  "\<not> EqualFold ''mimeType'' ''fileName''" "\<not> EqualFold ''mimeType'' ''content''"
  "EqualFold ''mimeType'' ''mimeType''"
  by code_simp+

lemma storeAttachment_object:
  "storeAttachment (JObject [(''fileName'', JString f), (''content'', JString c),
      (''mimeType'', JString m)]) zeroAttachment =
   (False, \<lparr>FileName = f, Content = c, MimeType = m\<rparr>)"
  by (simp add: storeAttachment_def storeAttachmentField_def EqualFold_keys storeString_def
      zeroAttachment_def)

lemma storeElements_objects:
  "storeElements (map (\<lambda>(f, c). JObject [(''fileName'', JString f),
            (''content'', JString c), (''mimeType'', JString ''audio/mpeg'')]) atts) [] =
   (False, map (\<lambda>(f, c). \<lparr>FileName = f, Content = c, MimeType = ''audio/mpeg''\<rparr>) atts)"
  by (induction atts) (auto simp: storeAttachment_object)

lemma Unmarshal_jsonData:
  assumes "list_all plainByte subject" and "list_all plainByte sender" and "list_all plainByte date"
    and "list_all (\<lambda>(f, c). list_all plainByte f \<and> list_all plainByte c) atts"
    and "set trailer \<subseteq> set jsonSpace"
  shows "Unmarshal (jsonData subject sender date atts @ trailer) =
     Inr \<lparr>Subject = subject, Sender = sender, EmailData.ReceivedAt = date,
          Attachments = map (\<lambda>(f, c). \<lparr>FileName = f, Content = c, MimeType = ''audio/mpeg''\<rparr>) atts\<rparr>"
  unfolding Unmarshal_def parseJSON_jsonData [OF assms]
  by (simp add: storeEmailField_def EqualFold_keys storeString_def storeAttachments_def
      storeElements_objects zeroEmail_def)

lemma ReplaceAll_nasty_char:
  "c \<noteq> CHR 0xE2 \<Longrightarrow>
   ReplaceAll nastyTimeRegex (c # s) repl = c # ReplaceAll nastyTimeRegex s repl"
  using ReplaceAll_nasty_skip [of "[c]" s repl] by simp

lemma ReplaceAll_nasty_key:
  "list_all plainByte k \<Longrightarrow>
   ReplaceAll nastyTimeRegex (quoted k @ s) repl = quoted k @ ReplaceAll nastyTimeRegex s repl"
proof (rule ReplaceAll_nasty_skip)
  assume "list_all plainByte k"
  then have "CHR 0xE2 \<notin> set k"
    using plainByte_facts [of "CHR 0xE2"] by (auto simp: list_all_iff)
  then show "CHR 0xE2 \<notin> set (quoted k)" by (simp add: quoted_def)
qed

lemma ReplaceAll_nasty_space:
  assumes "set trailer \<subseteq> set jsonSpace"
  shows "ReplaceAll nastyTimeRegex trailer repl = trailer"
proof -
  from assms have "CHR 0xE2 \<notin> set trailer" by (auto simp: jsonSpace_def)
  from ReplaceAll_nasty_skip [OF this, of "[]" repl] show ?thesis by simp
qed

lemma ReplaceAll_attachmentsJSON:
  assumes "list_all (\<lambda>(f, c). plainText f \<and> plainText c) atts"
  shows "ReplaceAll nastyTimeRegex (attachmentsJSON atts first @ rest) '' '' =
     attachmentsJSON (map (\<lambda>(f, c). (spaced f, spaced c)) atts) first @
     ReplaceAll nastyTimeRegex rest '' ''"
  using assms
proof (induction atts arbitrary: first)
  case Nil
  show ?case by simp
next
  case (Cons a atts)
  obtain f c where a: "a = (f, c)" by (cases a)
  with Cons.prems have p: "plainText f" "plainText c"
    and q: "list_all (\<lambda>(f, c). plainText f \<and> plainText c) atts"
    by simp_all
  note IH = Cons.IH [OF q, of False]
  show ?case
    by (simp add: a escapeJSON_plainText p escapeJSON_plain spaced_plain
        ReplaceAll_nasty_char plain_keys [THEN ReplaceAll_nasty_key]
        p [THEN ReplaceAll_nasty_quoted] IH)
qed

lemma ReplaceAll_jsonData:
  assumes "plainText subject" and "plainText sender" and "plainText date"
    and "list_all (\<lambda>(f, c). plainText f \<and> plainText c) atts"
    and "set trailer \<subseteq> set jsonSpace"
  shows "ReplaceAll nastyTimeRegex (jsonData subject sender date atts @ trailer) '' '' =
     jsonData (spaced subject) (spaced sender) (spaced date)
       (map (\<lambda>(f, c). (spaced f, spaced c)) atts) @ trailer"
  using ReplaceAll_attachmentsJSON [OF assms(4), of True "'']}'' @ trailer"]
  by (simp add: jsonData_def escapeJSON_plainText assms(1-3) escapeJSON_plain spaced_plain
        ReplaceAll_nasty_char plain_keys [THEN ReplaceAll_nasty_key]
        assms(1-3) [THEN ReplaceAll_nasty_quoted] ReplaceAll_nasty_space [OF assms(5)])

lemma Unmarshal_spaced_jsonData:
  assumes "plainText subject" and "plainText sender" and "plainText date"
    and "list_all (\<lambda>(f, c). plainText f \<and> plainText c) atts"
    and "set trailer \<subseteq> set jsonSpace"
  shows "Unmarshal (ReplaceAll nastyTimeRegex (jsonData subject sender date atts @ trailer) '' '') =
     Inr \<lparr>Subject = spaced subject, Sender = spaced sender, EmailData.ReceivedAt = spaced date,
          Attachments = map (\<lambda>(f, c). \<lparr>FileName = spaced f, Content = spaced c,
                                          MimeType = ''audio/mpeg''\<rparr>) atts\<rparr>"
proof -
  from assms(4) have "list_all (\<lambda>(f, c). list_all plainByte f \<and> list_all plainByte c)
      (map (\<lambda>(f, c). (spaced f, spaced c)) atts)"
    by (induction atts) (auto simp: spaced_plain)
  from Unmarshal_jsonData [OF assms(1-3) [THEN spaced_plain] this assms(5)]
  show ?thesis
    by (simp add: ReplaceAll_jsonData [OF assms] comp_def case_prod_unfold)
qed









section \<open>The claims\<close>

text \<open>
  C1, as amended. When the only attachment whose name ends in \<^verbatim>\<open>.mp3\<close> cannot be
  saved (its content does not decode, or the file cannot be created or written), the
  handler still answers 201 with the success body and inserts no record; the \<^verbatim>\<open>id\<close>
  of the answer is the identifier generated for that attachment before the save was
  tried, which is never empty.
\<close>

theorem webhook_failed_save_returns_generated_id:
  assumes "Method r = ''POST''" and "Body r = Inr body"
    and "jsonUnmarshalEmail e (ReplaceAll nastyTimeRegex body '' '') = Inr email"
    and "Attachments email = before @ attachment # rest"
    and "\<forall>a \<in> set before \<union> set rest. \<not> isMP3 a"
    and "isMP3 attachment"
    and "generateID e w = (recordingID, w1)"
    and "saveAttachment e attachment (mp3Path recordingID) w1 = (Some err, w2)"
  shows "webhookHandler e r w =
     (JsonResponse 201
        [(''status'', ''success''), (''message'', ''Recording data received''),
         (''id'', recordingID)], w2) \<and>
     recordingID \<noteq> [] \<and> rows w2 = rows w"
proof -
  have "recordingID \<noteq> []"
    using generateID_nonempty [of e w] assms(7) by simp
  moreover have "rows w1 = rows w"
    using generateID_world(1) [of e w] assms(7) by simp
  moreover have "rows w2 = rows w1"
    using saveAttachment_world(1) [of e attachment "mp3Path recordingID" w1] assms(8) by simp
  ultimately show ?thesis
    using failed_save [OF assms] by simp
qed

theorem webhook_failed_save_returns_generated_id_witness:
  "webhookHandler (exampleEnv (exampleEmail ''hello'' ''msg.MP3'' ''!!!'') ''A title'')
          exampleRequest exampleWorld =
     (JsonResponse 201
        [(''status'', ''success''), (''message'', ''Recording data received''),
         (''id'', ''AAAAAAAAAAAAAAAAAAAAAA=='')],
      snd (generateID (exampleEnv (exampleEmail ''hello'' ''msg.MP3'' ''!!!'') ''A title'')
             exampleWorld)) \<and>
   rows (snd (generateID (exampleEnv (exampleEmail ''hello'' ''msg.MP3'' ''!!!'') ''A title'')
             exampleWorld)) = []"
proof -
  let ?a = "\<lparr>FileName = ''msg.MP3'', Content = ''!!!'', MimeType = ''audio/mpeg''\<rparr>"
  let ?email = "exampleEmail ''hello'' ''msg.MP3'' ''!!!''"
  have 4: "Attachments ?email = [] @ ?a # []"
    by (simp add: exampleEmail_def)
  have 5: "\<forall>a \<in> set [] \<union> set []. \<not> isMP3 a" by simp
  from webhook_failed_save_returns_generated_id
    [OF exampleRequest_parsed 4 5 isMP3_example exampleEnv_generateID example_bad_save]
  show ?thesis by (simp add: exampleWorld_def)
qed

text \<open>
  The claim as first stated (an empty \<^verbatim>\<open>id\<close>) fails: the single attachment
  \<^verbatim>\<open>msg.MP3\<close> with content \<^verbatim>\<open>!!!\<close> does not decode, and the answer carries the
  identifier that was generated for it.
\<close>

theorem webhook_failed_save_counterexample:
  "isMP3 \<lparr>FileName = ''msg.MP3'', Content = ''!!!'', MimeType = ''audio/mpeg''\<rparr> \<and>
   Attachments (exampleEmail ''hello'' ''msg.MP3'' ''!!!'') =
     [\<lparr>FileName = ''msg.MP3'', Content = ''!!!'', MimeType = ''audio/mpeg''\<rparr>] \<and>
   fst (saveAttachment (exampleEnv (exampleEmail ''hello'' ''msg.MP3'' ''!!!'') ''A title'')
          \<lparr>FileName = ''msg.MP3'', Content = ''!!!'', MimeType = ''audio/mpeg''\<rparr>
          (mp3Path ''AAAAAAAAAAAAAAAAAAAAAA=='')
          (snd (generateID (exampleEnv (exampleEmail ''hello'' ''msg.MP3'' ''!!!'') ''A title'')
                 exampleWorld))) =
     Some ''base64 decode error: illegal base64 data at input byte 0'' \<and>
   fst (webhookHandler (exampleEnv (exampleEmail ''hello'' ''msg.MP3'' ''!!!'') ''A title'')
          exampleRequest exampleWorld) =
     JsonResponse 201
        [(''status'', ''success''), (''message'', ''Recording data received''),
         (''id'', ''AAAAAAAAAAAAAAAAAAAAAA=='')] \<and>
   fst (webhookHandler (exampleEnv (exampleEmail ''hello'' ''msg.MP3'' ''!!!'') ''A title'')
          exampleRequest exampleWorld) \<noteq>
     JsonResponse 201
        [(''status'', ''success''), (''message'', ''Recording data received''), (''id'', [])]"
proof -
  let ?a = "\<lparr>FileName = ''msg.MP3'', Content = ''!!!'', MimeType = ''audio/mpeg''\<rparr>"
  let ?email = "exampleEmail ''hello'' ''msg.MP3'' ''!!!''"
  let ?e = "exampleEnv ?email ''A title''"
  have 4: "Attachments ?email = [] @ ?a # []"
    by (simp add: exampleEmail_def)
  have 5: "\<forall>a \<in> set [] \<union> set []. \<not> isMP3 a" by simp
  from failed_save [OF exampleRequest_parsed 4 5 isMP3_example exampleEnv_generateID example_bad_save]
  have "fst (webhookHandler ?e exampleRequest exampleWorld) =
     JsonResponse 201
        [(''status'', ''success''), (''message'', ''Recording data received''),
         (''id'', ''AAAAAAAAAAAAAAAAAAAAAA=='')]"
    by simp
  with isMP3_example [of "''!!!''" "''audio/mpeg''"] 4 show ?thesis
    by (simp add: example_bad_save)
qed

text \<open>
  C2. At a completion whose content is a title in double quotes with a leading colon
  and a space, or with a leading label that ends in a colon, the title generator keeps
  the space, or the label: white space is trimmed before the quotes and the colon are
  removed, and only a colon that starts the title is removed.
\<close>

theorem generateTitle_keeps_space_and_label:
  "fst (generateTitle (exampleEnv helloEmail ([CHR 0x22] @ '': Call from mom'' @ [CHR 0x22]))
          ''hello'' exampleWorld) = ('' Call from mom'', None) \<and>
   fst (generateTitle (exampleEnv helloEmail ([CHR 0x22] @ ''Title: Call from mom'' @ [CHR 0x22]))
          ''hello'' exampleWorld) = (''Title: Call from mom'', None) \<and>
   fst (generateTitle (exampleEnv helloEmail ([CHR 0x22] @ '':Call from mom'' @ [CHR 0x22]))
          ''hello'' exampleWorld) = (''Call from mom'', None)"
proof -
  have 1: "cleanTitle ([CHR 0x22] @ '': Call from mom'' @ [CHR 0x22]) = '' Call from mom''"
    by code_simp
  have 2: "cleanTitle ([CHR 0x22] @ ''Title: Call from mom'' @ [CHR 0x22]) = ''Title: Call from mom''"
    by code_simp
  have 3: "cleanTitle ([CHR 0x22] @ '':Call from mom'' @ [CHR 0x22]) = ''Call from mom''"
    by code_simp
  have "\<And>content. fst (generateTitle (exampleEnv helloEmail content) ''hello'' exampleWorld) =
      (cleanTitle content, None)"
    by (simp add: generateTitle_def exampleEnv_def Let_def)
  with 1 2 3 show ?thesis by simp
qed

text \<open>
  C3. In every ingestion in which the transcription fails, the record handed to the
  insert has the transcription \<^verbatim>\<open>Transcription failed: \<close> followed by the error text
  and the title \<^verbatim>\<open>Untitled Voicemail\<close>; it is the row added to the table (unless the
  insert itself fails), and the title generator is not called. The transcription is that
  of the first attachment that is saved: the loop may have continued past attachments
  before it, skipped or abandoned after a failed save or \<^verbatim>\<open>os.Stat\<close>, and by
  \<open>continuedPast_cases\<close> every run that reaches a transcription has this form.
\<close>

theorem webhook_failed_transcription:
  assumes "Method r = ''POST''" and "Body r = Inr body"
    and "jsonUnmarshalEmail e (ReplaceAll nastyTimeRegex body '' '') = Inr email"
    and "extractPhoneNumber (Subject email) = Inr phone"
    and "Attachments email = before @ attachment # rest"
    and "continuedPast e before [] w = Some (recordingID0, w0)"
    and "isMP3 attachment"
    and "generateID e w0 = (recordingID, w1)"
    and "saveAttachment e attachment (mp3Path recordingID) w1 = (None, w2)"
    and "Stat e (mp3Path recordingID) w2 = Inr fileSize"
    and "transcribeAudio e (mp3Path recordingID) w2 = (Inl err, w3)"
    and "recording =
       \<lparr>ID = recordingID,
        PhoneNumber = (if phone = [] then ''Unknown'' else phone),
        Recording.ReceivedAt =
          (if EmailData.ReceivedAt email = [] then timeNowFormat e else EmailData.ReceivedAt email),
        MP3FileName = FileName attachment,
        FilePath = mp3Path recordingID,
        FileSize = fileSize,
        Transcription = ''Transcription failed: '' @ err,
        Title = ''Untitled Voicemail''\<rparr>"
  shows "webhookHandler e r w =
     (JsonResponse 201
        [(''status'', ''success''), (''message'', ''Recording data received''),
         (''id'', recordingID)], snd (insertRecording e recording w3)) \<and>
     rows (snd (webhookHandler e r w)) =
       (if dbExec e recording = None \<and> recordingID \<notin> set (map ID (rows w))
        then rows w @ [recording] else rows w) \<and>
     titleCalls (snd (webhookHandler e r w)) = titleCalls w"
proof -
  note h = failed_transcription [OF assms]
  have c: "rows w0 = rows w" "titleCalls w0 = titleCalls w"
    using continuedPast_world [OF assms(6)] by simp_all
  have r: "rows w3 = rows w"
    using generateID_world(1) [of e w0]
      saveAttachment_world(1) [of e attachment "mp3Path recordingID" w1]
      transcribeAudio_world(1) [of e "mp3Path recordingID" w2] assms(8,9,11) c by simp
  have t: "titleCalls w3 = titleCalls w"
    using generateID_world(2) [of e w0]
      saveAttachment_world(2) [of e attachment "mp3Path recordingID" w1]
      transcribeAudio_world(2) [of e "mp3Path recordingID" w2] assms(8,9,11) c by simp
  have i: "ID recording = recordingID" using assms(12) by simp
  show ?thesis
    unfolding h
    using insertRecording_rows [of e recording w3] insertRecording_world [of e recording w3] r t i
    by simp
qed

theorem webhook_failed_transcription_witness:
  "map FileName (Attachments retryEmail) = [''a.mp3'', ''msg.MP3''] \<and>
   fst (saveAttachment retryEnv (hd (Attachments retryEmail))
          (mp3Path ''AAAAAAAAAAAAAAAAAAAAAA=='') exampleWorld) =
     Some ''base64 decode error: illegal base64 data at input byte 0'' \<and>
   fst (transcribeAudio retryEnv (mp3Path ''AAAAAAAAAAAAAAAAAAAAAA=='') exampleWorld) =
     Inl ''whisper.cpp not found in PATH: file does not exist'' \<and>
   rows (snd (webhookHandler retryEnv exampleRequest exampleWorld)) =
     [\<lparr>ID = ''AAAAAAAAAAAAAAAAAAAAAA=='', PhoneNumber = ''Unknown'',
       Recording.ReceivedAt = ''Saturday, March 1, 2025 at 12:00:00 PM'',
       MP3FileName = ''msg.MP3'', FilePath = ''data/mp3s/AAAAAAAAAAAAAAAAAAAAAA==.mp3'',
       FileSize = 5,
       Transcription =
         ''Transcription failed: whisper.cpp not found in PATH: file does not exist'',
       Title = ''Untitled Voicemail''\<rparr>] \<and>
   titleCalls (snd (webhookHandler retryEnv exampleRequest exampleWorld)) = []"
proof -
  note run = webhook_failed_transcription
    [OF exampleRequest_parsed(1,2) retryEnv_parsed retryEmail_phone retryEmail_attachments
      retryEnv_continuedPast isMP3_example retryEnv_generateID retryEnv_saveAttachment
      retryEnv_Stat retryEnv_transcribeAudio refl]
  have db: "dbExec retryEnv = (\<lambda>recording. None)"
    by (simp add: retryEnv_def noWhisperEnv_def exampleEnv_def)
  have rw: "rows exampleWorld = []" "titleCalls exampleWorld = []"
    by (simp_all add: exampleWorld_def)
  have ra: "EmailData.ReceivedAt retryEmail = ''Saturday, March 1, 2025 at 12:00:00 PM''"
    by (simp add: retryEmail_def helloEmail_def exampleEmail_def)
  have mp: "mp3Path ''AAAAAAAAAAAAAAAAAAAAAA=='' = ''data/mp3s/AAAAAAAAAAAAAAAAAAAAAA==.mp3''"
    by (simp add: mp3Path_def attachmentDir_def)
  have 1: "rows (snd (webhookHandler retryEnv exampleRequest exampleWorld)) =
     [\<lparr>ID = ''AAAAAAAAAAAAAAAAAAAAAA=='', PhoneNumber = ''Unknown'',
       Recording.ReceivedAt = ''Saturday, March 1, 2025 at 12:00:00 PM'',
       MP3FileName = ''msg.MP3'', FilePath = ''data/mp3s/AAAAAAAAAAAAAAAAAAAAAA==.mp3'',
       FileSize = 5,
       Transcription =
         ''Transcription failed: whisper.cpp not found in PATH: file does not exist'',
       Title = ''Untitled Voicemail''\<rparr>]"
    using run [THEN conjunct2, THEN conjunct1] by (simp add: db rw ra mp)
  have 2: "titleCalls (snd (webhookHandler retryEnv exampleRequest exampleWorld)) = []"
    using run [THEN conjunct2, THEN conjunct2] by (simp add: rw)
  have 3: "map FileName (Attachments retryEmail) = [''a.mp3'', ''msg.MP3'']"
    by (simp add: retryEmail_attachments)
  have 4: "fst (saveAttachment retryEnv (hd (Attachments retryEmail))
          (mp3Path ''AAAAAAAAAAAAAAAAAAAAAA=='') exampleWorld) =
     Some ''base64 decode error: illegal base64 data at input byte 0''"
    by (simp add: retryEmail_attachments saveAttachment_def DecodeString_bad)
  from 1 2 3 4 show ?thesis by (simp add: retryEnv_transcribeAudio)
qed

text \<open>
  C4. When no attachment of a well-formed payload has a name that ends in \<^verbatim>\<open>.mp3\<close>
  (in any case of the letters), the handler answers 201 with the success body and an
  empty \<^verbatim>\<open>id\<close>, and leaves the world as it was: no record is inserted.
\<close>

theorem webhook_no_audio_attachment:
  assumes "Method r = ''POST''" and "Body r = Inr body"
    and "jsonUnmarshalEmail e (ReplaceAll nastyTimeRegex body '' '') = Inr email"
    and "\<forall>a \<in> set (Attachments email). \<not> HasSuffix (ToLower (FileName a)) ''.mp3''"
  shows "webhookHandler e r w =
     (JsonResponse 201
        [(''status'', ''success''), (''message'', ''Recording data received''), (''id'', [])], w)"
proof -
  obtain phone where p: "extractPhoneNumber (Subject email) = Inr phone"
    using extractPhoneNumber_total by blast
  have "\<forall>a \<in> set (Attachments email). \<not> isMP3 a"
    using assms(4) by (simp add: isMP3_def)
  from processAttachments_skip [OF this, of e _ _ "[]" "[]" w]
  have "\<And>ph ra. processAttachments e ph ra (Attachments email) [] w = ([], w)"
    by simp
  with webhookHandler_parsed [OF assms(1-3) p, of w] show ?thesis by simp
qed

theorem webhook_no_audio_attachment_witness:
  "fst (webhookHandler (exampleEnv (exampleEmail ''hello'' ''notes.pdf'' ''aGVsbG8='') ''A title'')
          exampleRequest exampleWorld) =
     JsonResponse 201
        [(''status'', ''success''), (''message'', ''Recording data received''), (''id'', [])] \<and>
   rows (snd (webhookHandler (exampleEnv (exampleEmail ''hello'' ''notes.pdf'' ''aGVsbG8='') ''A title'')
          exampleRequest exampleWorld)) = []"
proof -
  let ?email = "exampleEmail ''hello'' ''notes.pdf'' ''aGVsbG8=''"
  let ?e = "exampleEnv ?email ''A title''"
  have 1: "Method exampleRequest = ''POST''" and 2: "Body exampleRequest = Inr ''{}''"
    by (simp_all add: exampleRequest_def)
  have 3: "jsonUnmarshalEmail ?e (ReplaceAll nastyTimeRegex ''{}'' '' '') = Inr ?email"
    by (simp add: exampleEnv_def)
  have 4: "\<forall>a \<in> set (Attachments ?email). \<not> HasSuffix (ToLower (FileName a)) ''.mp3''"
    unfolding exampleEmail_def by simp code_simp
  from webhook_no_audio_attachment [OF 1 2 3 4, of exampleWorld]
  show ?thesis by (simp add: exampleWorld_def)
qed

text \<open>
  C5. The extractor maps \<^verbatim>\<open>Call me at (415) 555-1234\<close> to \<^verbatim>\<open>(415) 555-1234\<close>. When
  the pattern matches nowhere in the subject, the extractor returns the empty string,
  and a record the handler stores for that payload has the phone number \<^verbatim>\<open>Unknown\<close>.
\<close>

theorem phone_number_extraction:
  assumes "Method r = ''POST''" and "Body r = Inr body"
    and "jsonUnmarshalEmail e (ReplaceAll nastyTimeRegex body '' '') = Inr email"
    and "FindStringSubmatch phoneRegex (Subject email) = []"
  shows "extractPhoneNumber ''Call me at (415) 555-1234'' = Inr ''(415) 555-1234'' \<and>
     extractPhoneNumber (Subject email) = Inr [] \<and>
     (rows (snd (webhookHandler e r w)) = rows w \<or>
      (\<exists>recording. rows (snd (webhookHandler e r w)) = rows w @ [recording] \<and>
         PhoneNumber recording = ''Unknown''))"
proof -
  have 1: "extractPhoneNumber ''Call me at (415) 555-1234'' = Inr ''(415) 555-1234''"
    by code_simp
  have 2: "extractPhoneNumber (Subject email) = Inr []"
    using assms(4) by (rule extractPhoneNumber_no_match)
  from stored_phone_number [OF assms(1-3) 2, of w] 1 2 show ?thesis by blast
qed

theorem phone_number_extraction_witness:
  "FindStringSubmatch phoneRegex (Subject helloEmail) = [] \<and>
   extractPhoneNumber (Subject helloEmail) = Inr [] \<and>
   map PhoneNumber (rows (snd (webhookHandler noWhisperEnv exampleRequest exampleWorld))) =
     [''Unknown'']"
proof -
  from phone_number_extraction
    [OF exampleRequest_parsed(1,2) noWhisperEnv_parsed helloEmail_no_match, of exampleWorld]
  have "extractPhoneNumber (Subject helloEmail) = Inr []"
    and "rows (snd (webhookHandler noWhisperEnv exampleRequest exampleWorld)) = rows exampleWorld \<or>
      (\<exists>recording. rows (snd (webhookHandler noWhisperEnv exampleRequest exampleWorld)) =
          rows exampleWorld @ [recording] \<and> PhoneNumber recording = ''Unknown'')"
    by blast+
  moreover have "length (rows (snd (webhookHandler noWhisperEnv exampleRequest exampleWorld))) = 1"
    by (simp add: noWhisperEnv_rows)
  moreover have "rows exampleWorld = []" by (simp add: exampleWorld_def)
  ultimately show ?thesis using helloEmail_no_match by auto
qed

text \<open>
  C6. When the phone pattern matches, the result is the whole match and three groups
  of three, three and four bytes. If the first group is \<^verbatim>\<open>704\<close> and the last two bytes
  of the third group are \<^verbatim>\<open>90\<close>, the extractor returns \<^verbatim>\<open>I HATE THIS MAN\<close>; on every
  other match it returns the groups formatted as \<^verbatim>\<open>(AAA) BBB-CCCC\<close>.
\<close>

theorem extractPhoneNumber_joke_override:
  assumes "FindStringSubmatch phoneRegex s \<noteq> []"
  shows "\<exists>w a b c. FindStringSubmatch phoneRegex s = [w, a, b, c] \<and>
           length a = 3 \<and> length b = 3 \<and> length c = 4 \<and>
           extractPhoneNumber s =
             Inr (if a = ''704'' \<and> drop 2 c = ''90'' then ''I HATE THIS MAN''
                  else ''('' @ a @ '') '' @ b @ ''-'' @ c)"
proof -
  from FindStringSubmatch_phoneRegex [of s] assms
  obtain w a b c where m: "FindStringSubmatch phoneRegex s = [w, a, b, c]"
    and l: "length a = 3" "length b = 3" "length c = 4"
    by blast
  from extractPhoneNumber_match [OF m l(3)] m l show ?thesis by blast
qed

theorem extractPhoneNumber_joke_override_witness:
  "FindStringSubmatch phoneRegex ''704-555-1290'' \<noteq> [] \<and>
   extractPhoneNumber ''704-555-1290'' = Inr ''I HATE THIS MAN'' \<and>
   FindStringSubmatch phoneRegex ''704-555-1291'' \<noteq> [] \<and>
   extractPhoneNumber ''704-555-1291'' = Inr ''(704) 555-1291'' \<and>
   FindStringSubmatch phoneRegex ''(415) 555-1290'' \<noteq> [] \<and>
   extractPhoneNumber ''(415) 555-1290'' = Inr ''(415) 555-1290''"
proof -
  have m1: "FindStringSubmatch phoneRegex ''704-555-1290'' = [''704-555-1290'', ''704'', ''555'', ''1290'']"
    by code_simp
  have m2: "FindStringSubmatch phoneRegex ''704-555-1291'' = [''704-555-1291'', ''704'', ''555'', ''1291'']"
    by code_simp
  have m3: "FindStringSubmatch phoneRegex ''(415) 555-1290'' = [''(415) 555-1290'', ''415'', ''555'', ''1290'']"
    by code_simp
  have h1: "FindStringSubmatch phoneRegex ''704-555-1290'' \<noteq> []" using m1 by simp
  have h2: "FindStringSubmatch phoneRegex ''704-555-1291'' \<noteq> []" using m2 by simp
  have h3: "FindStringSubmatch phoneRegex ''(415) 555-1290'' \<noteq> []" using m3 by simp
  from extractPhoneNumber_joke_override [OF h1] m1
  have "extractPhoneNumber ''704-555-1290'' = Inr ''I HATE THIS MAN''" by simp
  moreover from extractPhoneNumber_joke_override [OF h2] m2
  have "extractPhoneNumber ''704-555-1291'' = Inr ''(704) 555-1291''" by simp
  moreover from extractPhoneNumber_joke_override [OF h3] m3
  have "extractPhoneNumber ''(415) 555-1290'' = Inr ''(415) 555-1290''" by simp
  ultimately show ?thesis using h1 h2 h3 by simp
qed

text \<open>
  C7. Saving the base64 encoding of any byte sequence \<open>X\<close>, the empty one included,
  leaves a file whose content is \<open>X\<close>, when the file can be created and written. A
  content that does not decode gives a decode error, and a failure to create or to
  write the file gives a file error.
\<close>

theorem attachment_round_trip:
  "(osCreate e p = None \<and> fileWrite e p X = None \<longrightarrow>
      fst (saveAttachment e \<lparr>FileName = n, Content = EncodeToString encodeStd X, MimeType = m\<rparr> p w) = None \<and>
      files (snd (saveAttachment e \<lparr>FileName = n, Content = EncodeToString encodeStd X, MimeType = m\<rparr> p w)) p =
        Some X) \<and>
   DecodeString encodeStd (EncodeToString encodeStd X) = Inr X \<and>
   EncodeToString encodeStd [] = [] \<and>
   (DecodeString encodeStd (Content a) = Inl err \<longrightarrow>
      saveAttachment e a p w = (Some (''base64 decode error: '' @ err), w)) \<and>
   (DecodeString encodeStd (Content a) = Inr content \<and> osCreate e p = Some err \<longrightarrow>
      saveAttachment e a p w = (Some (''file creation error: '' @ err), w)) \<and>
   (DecodeString encodeStd (Content a) = Inr content \<and> osCreate e p = None \<and>
    fileWrite e p content = Some (k, err) \<longrightarrow>
      fst (saveAttachment e a p w) = Some (''file write error: '' @ err))"
  by (simp add: saveAttachment_def DecodeString_EncodeToString)

theorem attachment_round_trip_witness:
  "files (snd (saveAttachment (exampleEnv helloEmail ''A title'')
      \<lparr>FileName = ''msg.MP3'', Content = EncodeToString encodeStd ''hello'', MimeType = ''audio/mpeg''\<rparr>
      ''data/mp3s/a.mp3'' exampleWorld)) ''data/mp3s/a.mp3'' = Some ''hello'' \<and>
   files (snd (saveAttachment (exampleEnv helloEmail ''A title'')
      \<lparr>FileName = ''msg.MP3'', Content = [], MimeType = ''audio/mpeg''\<rparr>
      ''data/mp3s/a.mp3'' exampleWorld)) ''data/mp3s/a.mp3'' = Some [] \<and>
   fst (saveAttachment (exampleEnv helloEmail ''A title'')
      \<lparr>FileName = ''msg.MP3'', Content = ''!!!'', MimeType = ''audio/mpeg''\<rparr>
      ''data/mp3s/a.mp3'' exampleWorld) =
     Some ''base64 decode error: illegal base64 data at input byte 0'' \<and>
   fst (saveAttachment ((exampleEnv helloEmail ''A title'')\<lparr>osCreate := (\<lambda>path. Some ''permission denied'')\<rparr>)
      \<lparr>FileName = ''msg.MP3'', Content = EncodeToString encodeStd ''hello'', MimeType = ''audio/mpeg''\<rparr>
      ''data/mp3s/a.mp3'' exampleWorld) =
     Some ''file creation error: permission denied'' \<and>
   fst (saveAttachment
      ((exampleEnv helloEmail ''A title'')\<lparr>fileWrite := (\<lambda>path content. Some (0, ''no space left on device''))\<rparr>)
      \<lparr>FileName = ''msg.MP3'', Content = EncodeToString encodeStd ''hello'', MimeType = ''audio/mpeg''\<rparr>
      ''data/mp3s/a.mp3'' exampleWorld) =
     Some ''file write error: no space left on device''"
proof -
  let ?e = "exampleEnv helloEmail ''A title''"
  let ?p = "''data/mp3s/a.mp3''"
  let ?hello = "\<lparr>FileName = ''msg.MP3'', Content = EncodeToString encodeStd ''hello'', MimeType = ''audio/mpeg''\<rparr>"
  let ?empty = "\<lparr>FileName = ''msg.MP3'', Content = [], MimeType = ''audio/mpeg''\<rparr>"
  let ?bad = "\<lparr>FileName = ''msg.MP3'', Content = ''!!!'', MimeType = ''audio/mpeg''\<rparr>"
  have ok: "osCreate ?e ?p = None" "\<And>X. fileWrite ?e ?p X = None"
    by (simp_all add: exampleEnv_def)
  have dec: "DecodeString encodeStd (Content ?hello) = Inr ''hello''"
    by (simp add: DecodeString_EncodeToString del: EncodeToString.simps)
  have 1: "files (snd (saveAttachment ?e ?hello ?p exampleWorld)) ?p = Some ''hello''"
    using attachment_round_trip [of ?e ?p "''hello''" "''msg.MP3''" "''audio/mpeg''" exampleWorld] ok
    by (simp del: EncodeToString.simps)
  have 2: "files (snd (saveAttachment ?e ?empty ?p exampleWorld)) ?p = Some []"
    using attachment_round_trip [of ?e ?p "[]" "''msg.MP3''" "''audio/mpeg''" exampleWorld] ok
    by simp
  have 3: "fst (saveAttachment ?e ?bad ?p exampleWorld) =
      Some ''base64 decode error: illegal base64 data at input byte 0''"
    using attachment_round_trip [of ?e ?p _ _ _ exampleWorld ?bad "''illegal base64 data at input byte 0''"]
    by (simp add: DecodeString_bad)
  have 4: "fst (saveAttachment (?e\<lparr>osCreate := (\<lambda>path. Some ''permission denied'')\<rparr>) ?hello ?p exampleWorld) =
      Some ''file creation error: permission denied''"
    using attachment_round_trip [of "?e\<lparr>osCreate := (\<lambda>path. Some ''permission denied'')\<rparr>" ?p _ _ _
        exampleWorld ?hello "''permission denied''" "''hello''"] dec
    by (simp del: EncodeToString.simps)
  have 5: "fst (saveAttachment (?e\<lparr>fileWrite := (\<lambda>path content. Some (0, ''no space left on device''))\<rparr>)
        ?hello ?p exampleWorld) = Some ''file write error: no space left on device''"
    using attachment_round_trip [of "?e\<lparr>fileWrite := (\<lambda>path content. Some (0, ''no space left on device''))\<rparr>" ?p _ _ _
        exampleWorld ?hello "''no space left on device''" "''hello''" 0] dec
    by (simp add: exampleEnv_def del: EncodeToString.simps)
  from 1 2 3 4 5 show ?thesis by simp
qed

text \<open>
  C8. Whenever the phone pattern matches, the result has four entries and the third
  capture group has exactly four bytes, so the slice \<^verbatim>\<open>matches[3][2:]\<close> never panics:
  on every string the extractor returns a string.
\<close>

theorem extractPhoneNumber_never_panics:
  "(FindStringSubmatch phoneRegex s \<noteq> [] \<longrightarrow>
      length (FindStringSubmatch phoneRegex s) = 4 \<and>
      length (FindStringSubmatch phoneRegex s ! 3) = 4 \<and>
      sliceFrom (FindStringSubmatch phoneRegex s ! 3) 2 =
        Inr (drop 2 (FindStringSubmatch phoneRegex s ! 3))) \<and>
   (\<exists>res. extractPhoneNumber s = Inr res)"
proof -
  have "FindStringSubmatch phoneRegex s \<noteq> [] \<longrightarrow>
      length (FindStringSubmatch phoneRegex s) = 4 \<and>
      length (FindStringSubmatch phoneRegex s ! 3) = 4 \<and>
      sliceFrom (FindStringSubmatch phoneRegex s ! 3) 2 =
        Inr (drop 2 (FindStringSubmatch phoneRegex s ! 3))"
    using FindStringSubmatch_phoneRegex [of s] by (auto simp: sliceFrom_def)
  with extractPhoneNumber_total [of s] show ?thesis by blast
qed

theorem extractPhoneNumber_never_panics_witness:
  "FindStringSubmatch phoneRegex ''+1 704-555-1290'' = [''+1 704-555-1290'', ''704'', ''555'', ''1290''] \<and>
   length (FindStringSubmatch phoneRegex ''+1 704-555-1290'' ! 3) = 4 \<and>
   extractPhoneNumber ''+1 704-555-1290'' = Inr ''I HATE THIS MAN''"
proof -
  have m: "FindStringSubmatch phoneRegex ''+1 704-555-1290'' =
      [''+1 704-555-1290'', ''704'', ''555'', ''1290'']"
    by code_simp
  then have "FindStringSubmatch phoneRegex ''+1 704-555-1290'' \<noteq> []" by simp
  with extractPhoneNumber_never_panics [of "''+1 704-555-1290''"]
  have "length (FindStringSubmatch phoneRegex ''+1 704-555-1290'' ! 3) = 4" by blast
  moreover have "extractPhoneNumber ''+1 704-555-1290'' = Inr ''I HATE THIS MAN''"
    by code_simp
  ultimately show ?thesis using m by simp
qed







end
